theory Spec2Isabelle
  imports Complex_Main "HOL-Library.Sublist"
begin

section \<open>Python values as rendered by f-strings\<close>

text \<open>
  Both generator scripts build every output line with an f-string. Two conversions occur:
  \<^verbatim>\<open>{timestamp}\<close> and \<^verbatim>\<open>{20 + (i % 5)}\<close> render a Python \<^verbatim>\<open>int\<close> (unbounded, modelled as
  \<^typ>\<open>int\<close>) in decimal, and \<^verbatim>\<open>{val1:.2f}\<close> renders a Python \<^verbatim>\<open>float\<close> with two fractional
  digits.
\<close>

definition digit_char :: "nat \<Rightarrow> char" where
  "digit_char d = ''0123456789'' ! d"

fun str_nat :: "nat \<Rightarrow> string" where
  "str_nat n = (if n < 10 then [digit_char n] else str_nat (n div 10) @ [digit_char (n mod 10)])"

declare str_nat.simps [simp del]

text \<open>\<^verbatim>\<open>str(n)\<close> for a Python int: a minus sign for negative numbers, then the decimal digits.\<close>

definition str_int :: "int \<Rightarrow> string" where
  "str_int n = (if n < 0 then CHR ''-'' # str_nat (nat (- n)) else str_nat (nat n))"

text \<open>
  A finite Python float denotes a (dyadic) rational number, so a float value is modelled by the
  rational it denotes; NaN and the infinities are outside the model. The format \<^verbatim>\<open>.2f\<close>
  rounds the exact value to the nearest multiple of 1/100, ties to even, and prints the sign,
  the integer part, a point and exactly two digits.
\<close>

definition round_half_even :: "rat \<Rightarrow> int" where
  "round_half_even x =
     (let f = \<lfloor>x\<rfloor>; d = x - of_int f
      in if d < 1 / 2 then f else if 1 / 2 < d then f + 1 else if even f then f else f + 1)"

definition fmt2f :: "rat \<Rightarrow> string" where
  "fmt2f x =
     (let n = nat (round_half_even (\<bar>x\<bar> * 100))
      in (if x < 0 then ''-'' else '''') @ str_nat (n div 100) @ ''.'' @
         [digit_char (n mod 100 div 10), digit_char (n mod 10)])"

section \<open>The process state and its environment\<close>

text \<open>
  The scripts act on the file system, on the console and (the realistic generator) on the
  global random number generator. The state of the process is a record of these; every
  statement of a script is a function from state to a result and a new state. An exception is
  the result \<open>Inl e\<close>; the state survives it, since what reached the file before the failure
  stays there.

  Python's file objects are buffered: \<^verbatim>\<open>f.write\<close> appends to a buffer held by the handle, and
  the buffer reaches the file when the writer flushes it, during some later \<^verbatim>\<open>f.write\<close> or
  when the handle is closed. \<open>files\<close> is what is in each file, \<open>buffered\<close> is the data a handle
  still holds, \<open>handles\<close> lists the paths with an open handle.
\<close>

datatype py_error = OSError

record 'r world =
  files :: "string \<Rightarrow> string option"
  buffered :: "string \<Rightarrow> string"
  handles :: "string list"
  console :: "string list"
  rng :: 'r

text \<open>
  What the operating system and the buffering layer do is a parameter: whether a path can be
  opened for writing; whether the writer flushes once its buffer holds given data; and whether
  writing given data to a file with given contents succeeds (\<open>None\<close>) or fails after \<open>k\<close>
  characters of the data have reached the file (\<open>Some k\<close>).
\<close>

record io_env =
  can_open :: "string \<Rightarrow> bool"
  flush_now :: "string \<Rightarrow> string \<Rightarrow> bool"
  write_fault :: "string \<Rightarrow> string \<Rightarrow> string \<Rightarrow> nat option"

text \<open>
  Float arithmetic, \<^verbatim>\<open>math.sin\<close>, \<^verbatim>\<open>math.cos\<close>, \<^verbatim>\<open>math.pi\<close> and \<^verbatim>\<open>random.uniform\<close> belong to
  the Python runtime, not to the scripts; they are parameters too. \<open>uniform\<close> reads and advances
  the generator state.
\<close>

record 'r float_env =
  f_add :: "rat \<Rightarrow> rat \<Rightarrow> rat"
  f_mul :: "rat \<Rightarrow> rat \<Rightarrow> rat"
  f_div :: "rat \<Rightarrow> rat \<Rightarrow> rat"
  f_sin :: "rat \<Rightarrow> rat"
  f_cos :: "rat \<Rightarrow> rat"
  f_pi :: rat
  uniform :: "'r \<Rightarrow> rat \<Rightarrow> rat \<Rightarrow> rat \<times> 'r"

type_synonym 'r stmt = "'r world \<Rightarrow> (py_error + unit) \<times> 'r world"

definition cont :: "string \<Rightarrow> 'r world \<Rightarrow> string" where
  "cont p w = (case files w p of None \<Rightarrow> [] | Some c \<Rightarrow> c)"

text \<open>
  \<^verbatim>\<open>open(p, "w")\<close>: on success the file exists and is empty (truncated at once), and a handle
  with an empty buffer is open on it.
\<close>

definition open_w :: "io_env \<Rightarrow> string \<Rightarrow> 'r stmt" where
  "open_w io p w =
     (if can_open io p
      then (Inr (), w\<lparr>files := (files w)(p \<mapsto> []), buffered := (buffered w)(p := []),
                      handles := p # handles w\<rparr>)
      else (Inl OSError, w))"

text \<open>
  Flushing writes the buffer to the file. On a failure the characters that reached the file
  stay in it, the rest stays in the buffer, and \<^verbatim>\<open>OSError\<close> is raised.
\<close>

definition flush :: "io_env \<Rightarrow> string \<Rightarrow> 'r stmt" where
  "flush io p w =
     (case write_fault io p (cont p w) (buffered w p) of
        None \<Rightarrow>
          (Inr (), w\<lparr>files := (files w)(p \<mapsto> cont p w @ buffered w p),
                      buffered := (buffered w)(p := [])\<rparr>)
      | Some k \<Rightarrow>
          (Inl OSError, w\<lparr>files := (files w)(p \<mapsto> cont p w @ take k (buffered w p)),
                           buffered := (buffered w)(p := drop k (buffered w p))\<rparr>))"

text \<open>\<^verbatim>\<open>f.write(s)\<close> on the handle of path \<open>p\<close>: the data joins the buffer, which may be flushed.\<close>

definition f_write :: "io_env \<Rightarrow> string \<Rightarrow> string \<Rightarrow> 'r stmt" where
  "f_write io p s w =
     (let w1 = w\<lparr>buffered := (buffered w)(p := buffered w p @ s)\<rparr>
      in if flush_now io p (buffered w1 p) then flush io p w1 else (Inr (), w1))"

text \<open>
  \<^verbatim>\<open>f.close()\<close>: the buffer is flushed; whether or not that fails, the handle is released and
  what is left in the buffer is lost.
\<close>

definition f_close :: "io_env \<Rightarrow> string \<Rightarrow> 'r stmt" where
  "f_close io p w =
     (case flush io p w of
        (r, w1) \<Rightarrow>
          (r, w1\<lparr>buffered := (buffered w1)(p := []), handles := remove1 p (handles w1)\<rparr>))"

definition print :: "string \<Rightarrow> 'r world \<Rightarrow> 'r world" where
  "print s w = w\<lparr>console := console w @ [s]\<rparr>"

text \<open>
  \<^verbatim>\<open>with open(p, "w") as f: body\<close>. If the open raises, the body does not run. Otherwise the
  handle is closed when the body is left, whether it returned or raised. An exception of the
  body propagates (if the close raises too, that one does); after a body that returned, an
  exception of the close propagates.
\<close>

definition with_open_w :: "io_env \<Rightarrow> string \<Rightarrow> 'r stmt \<Rightarrow> 'r stmt" where
  "with_open_w io p body w =
     (case open_w io p w of
        (Inl e, w1) \<Rightarrow> (Inl e, w1)
      | (Inr _, w1) \<Rightarrow>
          (case body w1 of
             (r, w2) \<Rightarrow>
               (case f_close io p w2 of
                  (Inl e, w3) \<Rightarrow> (Inl e, w3)
                | (Inr _, w3) \<Rightarrow> (r, w3))))"

text \<open>\<^verbatim>\<open>for i in xs: body\<close>; an exception in the body leaves the loop.\<close>

fun for_each :: "'a list \<Rightarrow> ('a \<Rightarrow> 'r stmt) \<Rightarrow> 'r stmt" where
  "for_each [] body w = (Inr (), w)"
| "for_each (i # is) body w =
     (case body i w of
        (Inl e, w1) \<Rightarrow> (Inl e, w1)
      | (Inr _, w1) \<Rightarrow> for_each is body w1)"

definition py_range :: "nat \<Rightarrow> int list" where
  "py_range n = map int [0..<n]"

section \<open>generate_historical_graph.py\<close>

definition hist_path :: string where
  "hist_path = ''data/sensors_historical_graph.nq''"

definition hist_line1 :: "int \<Rightarrow> int \<Rightarrow> string" where
  "hist_line1 timestamp i =
     str_int timestamp @
     '' <http://example.org/sensor1> <http://example.org/temperature> \"'' @
     str_int (20 + (i mod 5)) @
     ''\"^^<http://www.w3.org/2001/XMLSchema#decimal> <http://example.org/sensorStream> .\<newline>''"

definition hist_line2 :: "int \<Rightarrow> int \<Rightarrow> string" where
  "hist_line2 timestamp i =
     str_int timestamp @
     '' <http://example.org/sensor2> <http://example.org/temperature> \"'' @
     str_int (22 + (i mod 5)) @
     ''\"^^<http://www.w3.org/2001/XMLSchema#decimal> <http://example.org/sensorStream> .\<newline>''"

definition hist_body :: "io_env \<Rightarrow> int \<Rightarrow> int \<Rightarrow> 'r stmt" where
  "hist_body io one_hour_ago i w =
     (let timestamp = one_hour_ago + (i * 1000)
      in case f_write io hist_path (hist_line1 timestamp i) w of
           (Inl e, w1) \<Rightarrow> (Inl e, w1)
         | (Inr _, w1) \<Rightarrow> f_write io hist_path (hist_line2 timestamp i) w1)"

text \<open>
  The whole script; \<open>now\<close> is the value of \<^verbatim>\<open>int(time.time() * 1000)\<close>, the one reading of the
  clock.
\<close>

definition generate_historical_graph :: "io_env \<Rightarrow> int \<Rightarrow> 'r stmt" where
  "generate_historical_graph io now w =
     (let one_hour_ago = now - (60 * 60 * 1000)
      in case with_open_w io hist_path (for_each (py_range 100) (hist_body io one_hour_ago)) w of
           (Inl e, w1) \<Rightarrow> (Inl e, w1)
         | (Inr _, w1) \<Rightarrow>
             (Inr (), print (''Generated data/sensors_historical_graph.nq with start timestamp '' @
                             str_int one_hour_ago) w1))"

section \<open>generate_realistic_data.py\<close>

definition real_path :: string where
  "real_path = ''data/realistic_sensors.nq''"

definition num_points :: nat where
  "num_points = 1000"

definition base_temp :: rat where
  "base_temp = 23"

definition real_line1 :: "int \<Rightarrow> rat \<Rightarrow> string" where
  "real_line1 timestamp val1 =
     str_int timestamp @
     '' <http://example.org/sensor1> <http://example.org/temperature> \"'' @
     fmt2f val1 @
     ''\"^^<http://www.w3.org/2001/XMLSchema#decimal> <http://example.org/sensorStream> .\<newline>''"

definition real_line2 :: "int \<Rightarrow> rat \<Rightarrow> string" where
  "real_line2 timestamp val2 =
     str_int timestamp @
     '' <http://example.org/sensor2> <http://example.org/temperature> \"'' @
     fmt2f val2 @
     ''\"^^<http://www.w3.org/2001/XMLSchema#decimal> <http://example.org/sensorStream> .\<newline>''"

text \<open>
  \<^verbatim>\<open>random.uniform(-0.5, 0.5)\<close>: the draw is a value, the generator state moves on.
\<close>

definition draw_noise :: "'r float_env \<Rightarrow> 'r world \<Rightarrow> rat \<times> 'r world" where
  "draw_noise fe w =
     (case uniform fe (rng w) (- (1 / 2)) (1 / 2) of (x, r) \<Rightarrow> (x, w\<lparr>rng := r\<rparr>))"

text \<open>
  In \<^verbatim>\<open>i * 2 * math.pi / 100\<close> the product \<^verbatim>\<open>i * 2\<close> is an int product; it and \<^verbatim>\<open>100\<close> are
  converted to float (exactly, at this size) by the float operations.
\<close>

definition phase :: "'r float_env \<Rightarrow> int \<Rightarrow> rat" where
  "phase fe i = f_div fe (f_mul fe (of_int (i * 2)) (f_pi fe)) 100"

definition real_body :: "io_env \<Rightarrow> 'r float_env \<Rightarrow> int \<Rightarrow> 'r stmt" where
  "real_body io fe i w =
     (let timestamp = 1000 * i;
          sine_component = f_mul fe 2 (f_sin fe (phase fe i));
          (noise, wa) = draw_noise fe w;
          val1 = f_add fe (f_add fe base_temp sine_component) noise
      in case f_write io real_path (real_line1 timestamp val1) wa of
           (Inl e, w1) \<Rightarrow> (Inl e, w1)
         | (Inr _, w1) \<Rightarrow>
             (let cosine_component = f_mul fe 2 (f_cos fe (phase fe i));
                  (noise2, wb) = draw_noise fe w1;
                  val2 = f_add fe (f_add fe base_temp cosine_component) noise2
              in f_write io real_path (real_line2 timestamp val2) wb))"

definition generate_realistic_data :: "io_env \<Rightarrow> 'r float_env \<Rightarrow> 'r stmt" where
  "generate_realistic_data io fe w =
     (case with_open_w io real_path (for_each (py_range num_points) (real_body io fe)) w of
        (Inl e, w1) \<Rightarrow> (Inl e, w1)
      | (Inr _, w1) \<Rightarrow>
          (Inr (), print (''Generated data/realistic_sensors.nq with '' @
                          str_int (int num_points) @ '' points'') w1))"

section \<open>Reading an output file\<close>

text \<open>
  The properties of the output are stated on what a reader of the file sees: its lines (the
  text between newline characters) and the fields of a line (split on whitespace, except
  inside a quoted literal).
\<close>

fun lines_from :: "string \<Rightarrow> string \<Rightarrow> string list" where
  "lines_from cur [] = (if cur = [] then [] else [cur])"
| "lines_from cur (c # cs) =
     (if c = CHR 0x0A then cur # lines_from [] cs else lines_from (cur @ [c]) cs)"

definition file_lines :: "string \<Rightarrow> string list" where
  "file_lines s = lines_from [] s"

definition is_space :: "char \<Rightarrow> bool" where
  "is_space c = (c = CHR '' '' \<or> c = CHR 0x09 \<or> c = CHR 0x0A \<or> c = CHR 0x0D)"

fun fields_from :: "bool \<Rightarrow> string \<Rightarrow> string \<Rightarrow> string list" where
  "fields_from inq cur [] = (if cur = [] then [] else [cur])"
| "fields_from inq cur (c # cs) =
     (if c = CHR 0x22 then fields_from (\<not> inq) (cur @ [c]) cs
      else if is_space c \<and> \<not> inq
           then (if cur = [] then fields_from False [] cs else cur # fields_from False [] cs)
           else fields_from inq (cur @ [c]) cs)"

definition split_fields :: "string \<Rightarrow> string list" where
  "split_fields s = fields_from False [] s"

section \<open>What a run writes\<close>

definition plain_char :: "char \<Rightarrow> bool" where
  "plain_char c = (c \<noteq> CHR 0x22 \<and> \<not> is_space c)"

definition bare :: "string \<Rightarrow> bool" where
  "bare s = list_all plain_char s"

definition sensor1_uri :: string where "sensor1_uri = ''<http://example.org/sensor1>''"

definition sensor2_uri :: string where "sensor2_uri = ''<http://example.org/sensor2>''"

definition temperature_uri :: string where "temperature_uri = ''<http://example.org/temperature>''"

definition stream_uri :: string where "stream_uri = ''<http://example.org/sensorStream>''"

definition decimal_literal :: "string \<Rightarrow> string" where
  "decimal_literal lit = ''\"'' @ lit @ ''\"^^<http://www.w3.org/2001/XMLSchema#decimal>''"

definition nq_record :: "string \<Rightarrow> string \<Rightarrow> string \<Rightarrow> string" where
  "nq_record ts subj lit =
     ts @ '' '' @ subj @ '' '' @ temperature_uri @ '' '' @ decimal_literal lit @ '' '' @
     stream_uri @ '' .''"

definition render :: "string list \<Rightarrow> string" where
  "render recs = concat (map (\<lambda>b. b @ [CHR 0x0A]) recs)"

fun trace :: "('a \<Rightarrow> 'r \<Rightarrow> string list \<times> 'r) \<Rightarrow> 'r \<Rightarrow> 'a list \<Rightarrow> string list" where
  "trace step r [] = []"
| "trace step r (i # is) = (case step i r of (recs, r1) \<Rightarrow> recs @ trace step r1 is)"

definition hist_pair :: "int \<Rightarrow> int \<Rightarrow> string list" where
  "hist_pair one_hour_ago i =
     [nq_record (str_int (one_hour_ago + (i * 1000))) sensor1_uri (str_int (20 + (i mod 5))),
      nq_record (str_int (one_hour_ago + (i * 1000))) sensor2_uri (str_int (22 + (i mod 5)))]"

definition hist_step :: "int \<Rightarrow> int \<Rightarrow> 'r \<Rightarrow> string list \<times> 'r" where
  "hist_step one_hour_ago i r = (hist_pair one_hour_ago i, r)"

definition hist_records :: "int \<Rightarrow> string list" where
  "hist_records now = concat (map (hist_pair (now - (60 * 60 * 1000))) (py_range 100))"

definition hist_message :: "int \<Rightarrow> string" where
  "hist_message now =
     ''Generated data/sensors_historical_graph.nq with start timestamp '' @
     str_int (now - (60 * 60 * 1000))"

definition real_message :: string where
  "real_message =
     ''Generated data/realistic_sensors.nq with '' @ str_int (int num_points) @ '' points''"

definition real_val1 :: "'r float_env \<Rightarrow> int \<Rightarrow> rat \<Rightarrow> rat" where
  "real_val1 fe i noise = f_add fe (f_add fe base_temp (f_mul fe 2 (f_sin fe (phase fe i)))) noise"

definition real_val2 :: "'r float_env \<Rightarrow> int \<Rightarrow> rat \<Rightarrow> rat" where
  "real_val2 fe i noise2 = f_add fe (f_add fe base_temp (f_mul fe 2 (f_cos fe (phase fe i)))) noise2"

definition real_step :: "'r float_env \<Rightarrow> int \<Rightarrow> 'r \<Rightarrow> string list \<times> 'r" where
  "real_step fe i r =
     (case uniform fe r (- (1 / 2)) (1 / 2) of (noise, r1) \<Rightarrow>
      case uniform fe r1 (- (1 / 2)) (1 / 2) of (noise2, r2) \<Rightarrow>
        ([nq_record (str_int (1000 * i)) sensor1_uri (fmt2f (real_val1 fe i noise)),
          nq_record (str_int (1000 * i)) sensor2_uri (fmt2f (real_val2 fe i noise2))], r2))"

definition real_records :: "'r float_env \<Rightarrow> 'r \<Rightarrow> string list" where
  "real_records fe r = trace (real_step fe) r (py_range num_points)"

definition with_newlines :: "string list \<Rightarrow> string list" where
  "with_newlines recs = map (\<lambda>b. b @ [CHR 0x0A]) recs"

definition output_lines :: "string \<Rightarrow> 'r world \<Rightarrow> string list" where
  "output_lines p w = (case files w p of None \<Rightarrow> [] | Some c \<Rightarrow> file_lines c)"

text \<open>
  The buffering layer on its own: what writing a list of chunks does to the contents \<open>d\<close> of
  the file and to the buffer \<open>b\<close> of the handle, and whether every flush on the way succeeded.
\<close>

fun buffered_writes ::
  "io_env \<Rightarrow> string \<Rightarrow> string \<Rightarrow> string \<Rightarrow> string list \<Rightarrow> bool \<times> string \<times> string" where
  "buffered_writes io p d b [] = (True, d, b)"
| "buffered_writes io p d b (s # ss) =
     (if flush_now io p (b @ s)
      then (case write_fault io p d (b @ s) of
              None \<Rightarrow> buffered_writes io p (d @ b @ s) [] ss
            | Some k \<Rightarrow> (False, d @ take k (b @ s), drop k (b @ s)))
      else buffered_writes io p d (b @ s) ss)"

text \<open>No flush fails, neither during the writes nor at the close that follows them.\<close>

definition run_ok :: "io_env \<Rightarrow> string \<Rightarrow> string list \<Rightarrow> bool" where
  "run_ok io p chunks =
     (case buffered_writes io p [] [] chunks of
        (ok, d, b) \<Rightarrow> ok \<and> write_fault io p d b = None)"

text \<open>Reading a decimal number back from its text, independently of how it was printed.\<close>

definition is_digit :: "char \<Rightarrow> bool" where
  "is_digit c = (c \<in> set ''0123456789'')"

definition digit_value :: "char \<Rightarrow> nat" where
  "digit_value c = of_char c - 48"

definition read_nat :: "string \<Rightarrow> nat option" where
  "read_nat s =
     (if s \<noteq> [] \<and> list_all is_digit s
      then Some (foldl (\<lambda>a c. 10 * a + digit_value c) 0 s) else None)"

definition read_int :: "string \<Rightarrow> int option" where
  "read_int s =
     (case s of
        [] \<Rightarrow> None
      | c # cs \<Rightarrow>
          if c = CHR ''-'' then map_option (\<lambda>n. - int n) (read_nat cs)
          else map_option int (read_nat s))"


text \<open>Environments and states on which the theorems are exercised.\<close>

definition ok_io :: io_env where
  "ok_io =
     \<lparr>can_open = (\<lambda>p. True), flush_now = (\<lambda>p b. 8192 \<le> length b),
      write_fault = (\<lambda>p c s. None)\<rparr>"

definition stale_world :: "nat world" where
  "stale_world =
     \<lparr>files = (\<lambda>p. Some ''left over from an earlier run''), buffered = (\<lambda>p. []),
      handles = [], console = [], rng = 7\<rparr>"

text \<open>
  An outcome \<open>out\<close> of running a statement from the state \<open>w\<close> is that of writing the chunks
  \<open>cs\<close> to the handle of \<open>p\<close>: same success, same contents and buffer, and no other file, handle
  or console output touched.
\<close>

definition performs ::
  "io_env \<Rightarrow> string \<Rightarrow> 'r world \<Rightarrow> (py_error + unit) \<times> 'r world \<Rightarrow> string list \<Rightarrow> bool" where
  "performs io p w out cs =
     ((fst out = Inr ()) = fst (buffered_writes io p (cont p w) (buffered w p) cs) \<and>
      (cont p (snd out), buffered (snd out) p) =
        snd (buffered_writes io p (cont p w) (buffered w p) cs) \<and>
      files (snd out) = (files w)(p := files (snd out) p) \<and>
      buffered (snd out) = (buffered w)(p := buffered (snd out) p) \<and>
      handles (snd out) = handles w \<and> console (snd out) = console w)"

text \<open>What the file holds once the handle has been closed after writing the chunks.\<close>

definition final_contents :: "io_env \<Rightarrow> string \<Rightarrow> string list \<Rightarrow> string" where
  "final_contents io p cs =
     (case buffered_writes io p [] [] cs of
        (ok, d, b) \<Rightarrow>
          (case write_fault io p d b of None \<Rightarrow> d @ b | Some k \<Rightarrow> d @ take k b))"

text \<open>
  The lines of each output file after a run, read back from the file system under the path the
  specification names, and the parts of a line: its \<open>k\<close>-th field, and the lexical form between
  the quotes of a literal field.
\<close>

definition hist_lines :: "io_env \<Rightarrow> int \<Rightarrow> 'r world \<Rightarrow> string list" where
  "hist_lines io now w =
     output_lines ''data/sensors_historical_graph.nq'' (snd (generate_historical_graph io now w))"

definition real_lines :: "io_env \<Rightarrow> 'r float_env \<Rightarrow> 'r world \<Rightarrow> string list" where
  "real_lines io fe w =
     output_lines ''data/realistic_sensors.nq'' (snd (generate_realistic_data io fe w))"

definition field :: "nat \<Rightarrow> string \<Rightarrow> string" where
  "field k l = split_fields l ! k"

definition lexical :: "string \<Rightarrow> string" where
  "lexical f = takeWhile (\<lambda>c. c \<noteq> CHR 0x22) (drop 1 f)"

text \<open>
  A runtime for exercising the realistic generator: exact arithmetic, constant \<open>sin\<close> and \<open>cos\<close>,
  and a counter as random number generator.
\<close>

definition sample_runtime :: "nat float_env" where
  "sample_runtime =
     \<lparr>f_add = (+), f_mul = (*), f_div = (/), f_sin = (\<lambda>x. 0), f_cos = (\<lambda>x. 1),
      f_pi = 355 / 113,
      uniform = (\<lambda>r a b. (a + (b - a) * (of_nat (r mod 8) / 8), r + 3))\<rparr>"


definition newlines :: "string \<Rightarrow> nat" where
  "newlines s = length (filter (\<lambda>c. c = CHR 0x0A) s)"

definition eager_io :: io_env where
  "eager_io =
     \<lparr>can_open = (\<lambda>p. True), flush_now = (\<lambda>p b. True), write_fault = (\<lambda>p c s. None)\<rparr>"

definition fresh_world :: "nat world" where
  "fresh_world =
     \<lparr>files = (\<lambda>p. None), buffered = (\<lambda>p. []), handles = [], console = [], rng = 99\<rparr>"



section \<open>Properties of the rendered values\<close>

lemma digit_char_mem: "d < 10 \<Longrightarrow> digit_char d \<in> set ''0123456789''"
  unfolding digit_char_def by (rule nth_mem) simp

lemma str_nat_chars: "set (str_nat n) \<subseteq> set ''0123456789''"
proof (induction n rule: str_nat.induct)
  case (1 n)
  show ?case
  proof (cases "n < 10")
    case True
    then show ?thesis using digit_char_mem [of n] by (subst str_nat.simps) simp
  next
    case False
    have "n mod 10 < 10" by simp
    from digit_char_mem [OF this] 1 [OF False] False show ?thesis
      by (subst str_nat.simps) simp
  qed
qed

lemma str_nat_nonempty: "str_nat n \<noteq> []"
  by (subst str_nat.simps) simp

lemma bare_append [simp]: "bare (u @ v) = (bare u \<and> bare v)"
  by (simp add: bare_def)

lemma bare_Cons: "bare (c # s) = (plain_char c \<and> bare s)"
  by (simp add: bare_def)

lemma plain_digits: "list_all plain_char ''0123456789''"
  by (simp add: plain_char_def is_space_def)

lemma plain_digit_char: "d < 10 \<Longrightarrow> plain_char (digit_char d)"
  using digit_char_mem [of d] plain_digits unfolding list_all_iff by blast

lemma bare_str_nat: "bare (str_nat n)"
  using str_nat_chars [of n] plain_digits unfolding bare_def list_all_iff by blast

lemma bare_str_int: "bare (str_int n)"
  by (simp add: str_int_def bare_str_nat bare_Cons plain_char_def is_space_def)

lemma bare_fmt2f: "bare (fmt2f x)"
proof -
  let ?n = "nat (round_half_even (\<bar>x\<bar> * 100))"
  have "?n mod 100 div 10 < 10"
    by (simp add: less_mult_imp_div_less)
  then have a: "plain_char (digit_char (?n mod 100 div 10))"
    by (rule plain_digit_char)
  have b: "plain_char (digit_char (?n mod 10))"
    by (rule plain_digit_char) simp
  have c: "plain_char CHR ''-''" "plain_char CHR ''.''" "bare []"
    by (simp_all add: bare_def plain_char_def is_space_def)
  show ?thesis
    unfolding fmt2f_def Let_def
    by (simp add: bare_str_nat a b c bare_Cons del: abs_mult)
qed

lemma bare_no_newline: "bare s \<Longrightarrow> CHR 0x0A \<notin> set s"
  by (auto simp: bare_def list_all_iff plain_char_def is_space_def)

lemma bare_no_quote: "bare s \<Longrightarrow> CHR 0x22 \<notin> set s"
  by (auto simp: bare_def list_all_iff plain_char_def)

lemma fields_from_bare:
  "bare u \<Longrightarrow> fields_from inq cur (u @ v) = fields_from inq (cur @ u) v"
  by (induction u arbitrary: cur) (simp_all add: bare_Cons plain_char_def)

lemma fields_from_quoted:
  "CHR 0x22 \<notin> set u \<Longrightarrow> fields_from True cur (u @ v) = fields_from True (cur @ u) v"
  by (induction u arbitrary: cur) auto

lemma lines_from_append:
  "CHR 0x0A \<notin> set u \<Longrightarrow> lines_from cur (u @ CHR 0x0A # v) = (cur @ u) # lines_from [] v"
  by (induction u arbitrary: cur) auto

lemma file_lines_concat:
  "\<forall>b\<in>set bs. CHR 0x0A \<notin> set b \<Longrightarrow>
     file_lines (concat (map (\<lambda>b. b @ [CHR 0x0A]) bs)) = bs"
  unfolding file_lines_def
  by (induction bs) (simp_all add: lines_from_append)

lemma hist_line1_record:
  "hist_line1 t i = nq_record (str_int t) sensor1_uri (str_int (20 + (i mod 5))) @ [CHR 0x0A]"
  by (simp add: hist_line1_def nq_record_def sensor1_uri_def temperature_uri_def
      stream_uri_def decimal_literal_def)

lemma hist_line2_record:
  "hist_line2 t i = nq_record (str_int t) sensor2_uri (str_int (22 + (i mod 5))) @ [CHR 0x0A]"
  by (simp add: hist_line2_def nq_record_def sensor2_uri_def temperature_uri_def
      stream_uri_def decimal_literal_def)

lemma real_line1_record:
  "real_line1 t v = nq_record (str_int t) sensor1_uri (fmt2f v) @ [CHR 0x0A]"
  by (simp add: real_line1_def nq_record_def sensor1_uri_def temperature_uri_def
      stream_uri_def decimal_literal_def)

lemma real_line2_record:
  "real_line2 t v = nq_record (str_int t) sensor2_uri (fmt2f v) @ [CHR 0x0A]"
  by (simp add: real_line2_def nq_record_def sensor2_uri_def temperature_uri_def
      stream_uri_def decimal_literal_def)

lemma bare_uris: "bare sensor1_uri" "bare sensor2_uri"
  by (simp_all add: bare_def sensor1_uri_def sensor2_uri_def plain_char_def is_space_def)

lemma split_fields_record:
  assumes ts: "bare ts" "ts \<noteq> []"
    and subj: "bare subj" "subj \<noteq> []"
    and lit: "CHR 0x22 \<notin> set lit"
  shows "split_fields (nq_record ts subj lit) =
           [ts, subj, temperature_uri, decimal_literal lit, stream_uri, ''.'']"
proof -
  let ?r3 = "''\"^^<http://www.w3.org/2001/XMLSchema#decimal> <http://example.org/sensorStream> .''"
  let ?r2 = "'' <http://example.org/temperature> \"'' @ lit @ ?r3"
  let ?r1 = "CHR '' '' # subj @ ?r2"
  have e: "nq_record ts subj lit = ts @ ?r1"
    by (simp add: nq_record_def temperature_uri_def stream_uri_def decimal_literal_def)
  have "fields_from False [] (ts @ ?r1) = fields_from False ts ?r1"
    using fields_from_bare [OF ts(1), of False "[]" ?r1] by simp
  also have "\<dots> = ts # fields_from False [] (subj @ ?r2)"
    using ts(2) by (simp add: is_space_def)
  also have "fields_from False [] (subj @ ?r2) = fields_from False subj ?r2"
    using fields_from_bare [OF subj(1), of False "[]" ?r2] by simp
  also have "\<dots> = subj # temperature_uri # fields_from True ''\"'' (lit @ ?r3)"
    using subj(2) by (simp add: is_space_def temperature_uri_def)
  also have "fields_from True ''\"'' (lit @ ?r3) = fields_from True (''\"'' @ lit) ?r3"
    by (rule fields_from_quoted [OF lit])
  also have "\<dots> = [decimal_literal lit, stream_uri, ''.'']"
    by (simp add: is_space_def decimal_literal_def stream_uri_def)
  finally show ?thesis
    unfolding split_fields_def e .
qed

lemma record_no_newline:
  "bare ts \<Longrightarrow> bare subj \<Longrightarrow> bare lit \<Longrightarrow> CHR 0x0A \<notin> set (nq_record ts subj lit)"
  by (auto simp: nq_record_def temperature_uri_def stream_uri_def decimal_literal_def
      dest: bare_no_newline)

lemma render_simps [simp]:
  "render [] = []" "render (a @ b) = render a @ render b"
  "render (x # xs) = x @ CHR 0x0A # render xs"
  by (simp_all add: render_def)

lemma trace_hist: "trace (hist_step oha) r is = concat (map (hist_pair oha) is)"
  by (induction "is") (simp_all add: hist_step_def)

lemma for_each_rng:
  assumes "\<And>i w. rng (snd (body i w)) = rng w"
  shows "rng (snd (for_each is body w)) = rng w"
proof (induction "is" arbitrary: w)
  case Nil
  show ?case by simp
next
  case (Cons i "is")
  obtain res w1 where b: "body i w = (res, w1)" by (cases "body i w")
  with assms [of i w] have "rng w1 = rng w" by simp
  with Cons [of w1] b show ?case by (cases res) simp_all
qed

lemma for_each_ok:
  assumes "\<And>i w. fst (body i w) = Inr ()"
  shows "fst (for_each is body w) = Inr ()"
proof (induction "is" arbitrary: w)
  case Nil
  show ?case by simp
next
  case (Cons i "is")
  obtain res w1 where b: "body i w = (res, w1)" by (cases "body i w")
  with assms [of i w] have "res = Inr ()" by simp
  with Cons [of w1] b show ?case by simp
qed

lemma hist_unfold:
  "generate_historical_graph io now w =
     (case with_open_w io hist_path
             (for_each (py_range 100) (hist_body io (now - (60 * 60 * 1000)))) w of
        (Inl e, w1) \<Rightarrow> (Inl e, w1)
      | (Inr u, w1) \<Rightarrow> (Inr (), print (hist_message now) w1))"
  unfolding generate_historical_graph_def hist_message_def Let_def ..

lemma real_unfold:
  "generate_realistic_data io fe w =
     (case with_open_w io real_path (for_each (py_range num_points) (real_body io fe)) w of
        (Inl e, w1) \<Rightarrow> (Inl e, w1)
      | (Inr u, w1) \<Rightarrow> (Inr (), print real_message w1))"
  unfolding generate_realistic_data_def real_message_def ..

lemma py_range_length: "length (py_range n) = n"
  by (simp add: py_range_def)

lemma py_range_nth: "i < n \<Longrightarrow> py_range n ! i = int i"
  by (simp add: py_range_def)

lemma pairs_length: "length (concat (map (\<lambda>x. [f x, g x]) xs)) = 2 * length xs"
  by (induction xs) simp_all

lemma pairs_nth:
  "k < length xs \<Longrightarrow>
     concat (map (\<lambda>x. [f x, g x]) xs) ! (2 * k) = f (xs ! k) \<and>
     concat (map (\<lambda>x. [f x, g x]) xs) ! (2 * k + 1) = g (xs ! k)"
proof (induction xs arbitrary: k)
  case Nil
  then show ?case by simp
next
  case (Cons x xs)
  show ?case
  proof (cases k)
    case 0
    then show ?thesis by simp
  next
    case (Suc j)
    with Cons.prems have "j < length xs" by simp
    from Cons.IH [OF this] Suc show ?thesis by simp
  qed
qed

lemma hist_pair_fun:
  "hist_pair oha =
     (\<lambda>i. [nq_record (str_int (oha + (i * 1000))) sensor1_uri (str_int (20 + (i mod 5))),
           nq_record (str_int (oha + (i * 1000))) sensor2_uri (str_int (22 + (i mod 5)))])"
  by (rule ext) (simp add: hist_pair_def)

lemma hist_records_length: "length (hist_records now) = 200"
  unfolding hist_records_def hist_pair_fun by (simp add: pairs_length py_range_length)

lemma hist_records_nth:
  assumes "i < 100"
  shows "hist_records now ! (2 * i) =
           nq_record (str_int (now - 3600000 + int i * 1000)) sensor1_uri
             (str_int (20 + int i mod 5))"
    and "hist_records now ! (2 * i + 1) =
           nq_record (str_int (now - 3600000 + int i * 1000)) sensor2_uri
             (str_int (22 + int i mod 5))"
  using assms
    pairs_nth [of i "py_range 100"
      "\<lambda>i. nq_record (str_int (now - 60 * 60 * 1000 + (i * 1000))) sensor1_uri
             (str_int (20 + (i mod 5)))"
      "\<lambda>i. nq_record (str_int (now - 60 * 60 * 1000 + (i * 1000))) sensor2_uri
             (str_int (22 + (i mod 5)))"]
  unfolding hist_records_def hist_pair_fun
  by (simp_all add: py_range_length py_range_nth)

lemma trace_real_length: "length (trace (real_step fe) r is) = 2 * length is"
  by (induction "is" arbitrary: r) (simp_all add: real_step_def split: prod.splits)

lemma trace_real_nth:
  "k < length is \<Longrightarrow>
     \<exists>v1 v2. trace (real_step fe) r is ! (2 * k) =
               nq_record (str_int (1000 * (is ! k))) sensor1_uri (fmt2f v1) \<and>
             trace (real_step fe) r is ! (2 * k + 1) =
               nq_record (str_int (1000 * (is ! k))) sensor2_uri (fmt2f v2)"
proof (induction "is" arbitrary: r k)
  case Nil
  then show ?case by simp
next
  case (Cons i "is")
  obtain recs r2 where s: "real_step fe i r = (recs, r2)" by (cases "real_step fe i r")
  then obtain v1 v2 where recs: "recs =
      [nq_record (str_int (1000 * i)) sensor1_uri (fmt2f v1),
       nq_record (str_int (1000 * i)) sensor2_uri (fmt2f v2)]"
    by (auto simp: real_step_def split: prod.splits)
  show ?case
  proof (cases k)
    case 0
    with s recs show ?thesis by auto
  next
    case (Suc j)
    with Cons.prems have "j < length is" by simp
    from Cons.IH [OF this, of r2] Suc s recs show ?thesis by simp
  qed
qed

lemma real_records_length: "length (real_records fe r) = 2000"
  by (simp add: real_records_def trace_real_length py_range_length num_points_def)

lemma real_records_nth:
  assumes "i < 1000"
  shows "\<exists>v1 v2. real_records fe r ! (2 * i) =
                   nq_record (str_int (1000 * int i)) sensor1_uri (fmt2f v1) \<and>
                 real_records fe r ! (2 * i + 1) =
                   nq_record (str_int (1000 * int i)) sensor2_uri (fmt2f v2)"
  using assms trace_real_nth [of i "py_range num_points" fe r]
  by (simp add: real_records_def py_range_length py_range_nth num_points_def)

lemma render_with_newlines: "concat (with_newlines recs) = render recs"
  by (simp add: with_newlines_def render_def)

lemma with_newlines_append [simp]:
  "with_newlines (a @ b) = with_newlines a @ with_newlines b" "with_newlines [] = []"
  "with_newlines (x # xs) = (x @ [CHR 0x0A]) # with_newlines xs"
  by (simp_all add: with_newlines_def)

lemma str_int_nonempty: "str_int n \<noteq> []"
  by (simp add: str_int_def str_nat_nonempty)

lemma hist_records_no_newline:
  assumes "b \<in> set (hist_records now)"
  shows "CHR 0x0A \<notin> set b"
proof -
  from assms obtain i where "b \<in> set (hist_pair (now - (60 * 60 * 1000)) i)"
    by (auto simp: hist_records_def)
  then have "b = nq_record (str_int (now - (60 * 60 * 1000) + (i * 1000))) sensor1_uri
                 (str_int (20 + (i mod 5))) \<or>
             b = nq_record (str_int (now - (60 * 60 * 1000) + (i * 1000))) sensor2_uri
                 (str_int (22 + (i mod 5)))"
    by (simp add: hist_pair_def)
  then show ?thesis
    using record_no_newline [OF bare_str_int bare_uris(1) bare_str_int]
      record_no_newline [OF bare_str_int bare_uris(2) bare_str_int] by blast
qed

lemma trace_real_no_newline:
  "b \<in> set (trace (real_step fe) r is) \<Longrightarrow> CHR 0x0A \<notin> set b"
proof (induction "is" arbitrary: r)
  case Nil
  then show ?case by simp
next
  case (Cons i "is")
  obtain recs r2 where s: "real_step fe i r = (recs, r2)" by (cases "real_step fe i r")
  then obtain v1 v2 where recs: "recs =
      [nq_record (str_int (1000 * i)) sensor1_uri (fmt2f v1),
       nq_record (str_int (1000 * i)) sensor2_uri (fmt2f v2)]"
    by (auto simp: real_step_def split: prod.splits)
  from Cons.prems s have "b \<in> set recs \<or> b \<in> set (trace (real_step fe) r2 is)" by simp
  then show ?case
  proof
    assume "b \<in> set recs"
    with recs have "b = nq_record (str_int (1000 * i)) sensor1_uri (fmt2f v1) \<or>
        b = nq_record (str_int (1000 * i)) sensor2_uri (fmt2f v2)" by simp
    then show ?thesis
      using record_no_newline [OF bare_str_int bare_uris(1) bare_fmt2f]
        record_no_newline [OF bare_str_int bare_uris(2) bare_fmt2f] by blast
  next
    assume "b \<in> set (trace (real_step fe) r2 is)"
    then show ?thesis by (rule Cons.IH)
  qed
qed

lemma hist_file_lines: "file_lines (render (hist_records now)) = hist_records now"
  unfolding render_def by (rule file_lines_concat) (simp add: hist_records_no_newline)

lemma real_file_lines: "file_lines (render (real_records fe r)) = real_records fe r"
  unfolding render_def
  by (rule file_lines_concat) (simp add: real_records_def trace_real_no_newline)

lemma fields_sensor1:
  "CHR 0x22 \<notin> set lit \<Longrightarrow> split_fields (nq_record (str_int t) sensor1_uri lit) =
     [str_int t, sensor1_uri, temperature_uri, decimal_literal lit, stream_uri, ''.'']"
  by (rule split_fields_record [OF bare_str_int str_int_nonempty bare_uris(1)])
    (simp_all add: sensor1_uri_def)

lemma fields_sensor2:
  "CHR 0x22 \<notin> set lit \<Longrightarrow> split_fields (nq_record (str_int t) sensor2_uri lit) =
     [str_int t, sensor2_uri, temperature_uri, decimal_literal lit, stream_uri, ''.'']"
  by (rule split_fields_record [OF bare_str_int str_int_nonempty bare_uris(2)])
    (simp_all add: sensor2_uri_def)

lemmas int_no_quote = bare_no_quote [OF bare_str_int]

lemmas fmt_no_quote = bare_no_quote [OF bare_fmt2f]

lemma hist_fields:
  assumes "i < 100"
  shows "split_fields (hist_records now ! (2 * i)) =
           [str_int (now - 3600000 + int i * 1000), sensor1_uri, temperature_uri,
            decimal_literal (str_int (20 + int i mod 5)), stream_uri, ''.'']"
    and "split_fields (hist_records now ! (2 * i + 1)) =
           [str_int (now - 3600000 + int i * 1000), sensor2_uri, temperature_uri,
            decimal_literal (str_int (22 + int i mod 5)), stream_uri, ''.'']"
  by (simp_all only: hist_records_nth [OF assms] fields_sensor1 [OF int_no_quote]
      fields_sensor2 [OF int_no_quote])

lemma real_fields:
  assumes "i < 1000"
  shows "\<exists>v1 v2.
           split_fields (real_records fe r ! (2 * i)) =
             [str_int (1000 * int i), sensor1_uri, temperature_uri,
              decimal_literal (fmt2f v1), stream_uri, ''.''] \<and>
           split_fields (real_records fe r ! (2 * i + 1)) =
             [str_int (1000 * int i), sensor2_uri, temperature_uri,
              decimal_literal (fmt2f v2), stream_uri, ''.'']"
proof -
  from real_records_nth [OF assms, of fe r] obtain v1 v2 where
    "real_records fe r ! (2 * i) = nq_record (str_int (1000 * int i)) sensor1_uri (fmt2f v1)"
    "real_records fe r ! (2 * i + 1) = nq_record (str_int (1000 * int i)) sensor2_uri (fmt2f v2)"
    by blast
  then show ?thesis
    by (simp only: fields_sensor1 [OF fmt_no_quote] fields_sensor2 [OF fmt_no_quote]) blast
qed

lemma mod5_cases: "int i mod 5 \<in> {0, 1, 2, 3, 4}"
proof -
  have "0 \<le> int i mod 5" "int i mod 5 < 5" by simp_all
  then show ?thesis by (simp add: insert_iff) arith
qed

lemma str_nat_small: "n < 10 \<Longrightarrow> str_nat n = [digit_char n]"
  by (subst str_nat.simps) simp

lemma str_nat_big: "10 \<le> n \<Longrightarrow> str_nat n = str_nat (n div 10) @ [digit_char (n mod 10)]"
  by (subst str_nat.simps) simp

lemmas str_int_eval = str_int_def str_nat_small str_nat_big digit_char_def

lemma str_int_small:
  "str_int 20 = ''20''" "str_int 21 = ''21''" "str_int 22 = ''22''" "str_int 23 = ''23''"
  "str_int 24 = ''24''" "str_int 25 = ''25''" "str_int 26 = ''26''"
  by (simp_all add: str_int_eval)

lemma str_int_scenario: "str_int 1699996400000 = ''1699996400000''"
  by (simp add: str_int_eval)

lemma buffered_writes_append:
  "buffered_writes io p d b (cs1 @ cs2) =
     (case buffered_writes io p d b cs1 of
        (ok, d1, b1) \<Rightarrow> if ok then buffered_writes io p d1 b1 cs2 else (False, d1, b1))"
  by (induction cs1 arbitrary: d b) (simp_all split: option.splits)

lemma buffered_writes_prefix:
  "buffered_writes io p d b cs = (ok, d1, b1) \<Longrightarrow>
     prefix (d1 @ b1) (d @ b @ concat cs) \<and> (ok \<longrightarrow> d1 @ b1 = d @ b @ concat cs)"
proof (induction cs arbitrary: d b)
  case Nil
  then show ?case by simp
next
  case (Cons s ss)
  show ?case
  proof (cases "flush_now io p (b @ s)")
    case False
    with Cons.prems have "buffered_writes io p d (b @ s) ss = (ok, d1, b1)" by simp
    from Cons.IH [OF this] show ?thesis by simp
  next
    case True
    show ?thesis
    proof (cases "write_fault io p d (b @ s)")
      case None
      with True Cons.prems have "buffered_writes io p (d @ b @ s) [] ss = (ok, d1, b1)" by simp
      from Cons.IH [OF this] show ?thesis by simp
    next
      case (Some k)
      with True Cons.prems have e: "ok = False" "d1 = d @ take k (b @ s)" "b1 = drop k (b @ s)"
        by simp_all
      have "d1 @ b1 = d @ b @ s" unfolding e by (simp only: append_assoc append_take_drop_id)
      then have "d @ b @ concat (s # ss) = (d1 @ b1) @ concat ss" by simp
      then have "prefix (d1 @ b1) (d @ b @ concat (s # ss))" by (simp only: prefixI)
      with e show ?thesis by simp
    qed
  qed
qed


lemma final_contents_ok: "run_ok io p cs \<Longrightarrow> final_contents io p cs = concat cs"
proof -
  assume r: "run_ok io p cs"
  obtain ok d b where e: "buffered_writes io p [] [] cs = (ok, d, b)"
    by (cases "buffered_writes io p [] [] cs")
  from buffered_writes_prefix [OF e] r e show ?thesis
    by (simp add: final_contents_def run_ok_def)
qed

lemma buffered_writes_no_fault:
  assumes "\<And>d b. write_fault io p d b = None"
  shows "fst (buffered_writes io p d b cs)"
  by (induction cs arbitrary: d b) (simp_all add: assms)

lemma run_ok_no_fault:
  assumes "\<And>d b. write_fault io p d b = None"
  shows "run_ok io p cs"
  using buffered_writes_no_fault [of io p "[]" "[]" cs, OF assms] assms
  by (cases "buffered_writes io p [] [] cs") (simp add: run_ok_def)

lemma performsD:
  assumes "performs io p w out cs"
  shows "(fst out = Inr ()) = fst (buffered_writes io p (cont p w) (buffered w p) cs)"
    and "cont p (snd out) = fst (snd (buffered_writes io p (cont p w) (buffered w p) cs))"
    and "buffered (snd out) p = snd (snd (buffered_writes io p (cont p w) (buffered w p) cs))"
    and "files (snd out) = (files w)(p := files (snd out) p)"
    and "buffered (snd out) = (buffered w)(p := buffered (snd out) p)"
    and "handles (snd out) = handles w"
    and "console (snd out) = console w"
  using assms unfolding performs_def prod_eq_iff fst_conv snd_conv by blast+

lemma performsI:
  assumes "(fst out = Inr ()) = fst (buffered_writes io p (cont p w) (buffered w p) cs)"
    and "cont p (snd out) = fst (snd (buffered_writes io p (cont p w) (buffered w p) cs))"
    and "buffered (snd out) p = snd (snd (buffered_writes io p (cont p w) (buffered w p) cs))"
    and "files (snd out) = (files w)(p := files (snd out) p)"
    and "buffered (snd out) = (buffered w)(p := buffered (snd out) p)"
    and "handles (snd out) = handles w"
    and "console (snd out) = console w"
  shows "performs io p w out cs"
  unfolding performs_def prod_eq_iff fst_conv snd_conv using assms by blast

lemma performs_write: "performs io p w (f_write io p s w) [s]"
  by (auto simp: performs_def f_write_def flush_def Let_def cont_def split: option.splits)

lemma performs_nothing: "performs io p w (Inr (), w) []"
  by (simp add: performs_def)

lemma performs_rng: "performs io p (w\<lparr>rng := r\<rparr>) out cs \<Longrightarrow> performs io p w out cs"
  by (simp add: performs_def cont_def)

lemma fun_upd_chain:
  assumes "g = (f :: 'a \<Rightarrow> 'b)(p := g p)" and "h = g(p := h p)"
  shows "h = f(p := h p)"
proof
  fix x
  show "h x = (f(p := h p)) x"
  proof (cases "x = p")
    case True
    then show ?thesis by simp
  next
    case False
    from assms(2) have "h x = (g(p := h p)) x" by (rule arg_cong [where f = "\<lambda>k. k x"])
    with False have a: "h x = g x" by simp
    from assms(1) have "g x = (f(p := g p)) x" by (rule arg_cong [where f = "\<lambda>k. k x"])
    with False have "g x = f x" by simp
    with a False show ?thesis by simp
  qed
qed

lemma performs_seq:
  assumes a: "performs io p w (res, w1) cs1"
    and b: "res = Inr () \<Longrightarrow> performs io p w1 out2 cs2"
  shows "performs io p w (case res of Inl e \<Rightarrow> (Inl e, w1) | Inr u \<Rightarrow> out2) (cs1 @ cs2)"
proof -
  obtain ok d1 b1 where e: "buffered_writes io p (cont p w) (buffered w p) cs1 = (ok, d1, b1)"
    by (cases "buffered_writes io p (cont p w) (buffered w p) cs1")
  note d = performsD [OF a, unfolded e fst_conv snd_conv]
  show ?thesis
  proof (cases res)
    case (Inl x)
    with d(1) have n: "\<not> ok" by simp
    have ap: "buffered_writes io p (cont p w) (buffered w p) (cs1 @ cs2) = (False, d1, b1)"
      using n by (simp add: buffered_writes_append e)
    have "performs io p w (Inl x, w1) (cs1 @ cs2)"
    proof (rule performsI)
      show "(fst (Inl x, w1) = Inr ()) =
              fst (buffered_writes io p (cont p w) (buffered w p) (cs1 @ cs2))"
        by (simp add: ap)
      show "cont p (snd (Inl x, w1)) =
              fst (snd (buffered_writes io p (cont p w) (buffered w p) (cs1 @ cs2)))"
        by (simp add: ap d(2))
      show "buffered (snd (Inl x, w1)) p =
              snd (snd (buffered_writes io p (cont p w) (buffered w p) (cs1 @ cs2)))"
        by (simp add: ap d(3))
      show "files (snd (Inl x, w1)) = (files w)(p := files (snd (Inl x, w1)) p)"
        unfolding snd_conv by (rule d(4))
      show "buffered (snd (Inl x, w1)) = (buffered w)(p := buffered (snd (Inl x, w1)) p)"
        unfolding snd_conv by (rule d(5))
      show "handles (snd (Inl x, w1)) = handles w"
        unfolding snd_conv by (rule d(6))
      show "console (snd (Inl x, w1)) = console w"
        unfolding snd_conv by (rule d(7))
    qed
    with Inl show ?thesis by simp
  next
    case (Inr u)
    with d(1) have ok: ok by simp
    from b Inr have b2: "performs io p w1 out2 cs2" by simp
    note d2 = performsD [OF b2, unfolded d(2) d(3)]
    have ap: "buffered_writes io p (cont p w) (buffered w p) (cs1 @ cs2) =
                buffered_writes io p d1 b1 cs2"
      using ok by (simp add: buffered_writes_append e)
    have "performs io p w out2 (cs1 @ cs2)"
    proof (rule performsI)
      show "(fst out2 = Inr ()) =
              fst (buffered_writes io p (cont p w) (buffered w p) (cs1 @ cs2))"
        unfolding ap by (rule d2(1))
      show "cont p (snd out2) =
              fst (snd (buffered_writes io p (cont p w) (buffered w p) (cs1 @ cs2)))"
        unfolding ap by (rule d2(2))
      show "buffered (snd out2) p =
              snd (snd (buffered_writes io p (cont p w) (buffered w p) (cs1 @ cs2)))"
        unfolding ap by (rule d2(3))
      show "files (snd out2) = (files w)(p := files (snd out2) p)"
        by (rule fun_upd_chain [OF d(4) d2(4)])
      show "buffered (snd out2) = (buffered w)(p := buffered (snd out2) p)"
        by (rule fun_upd_chain [OF d(5) d2(5)])
      show "handles (snd out2) = handles w"
        using d2(6) d(6) by simp
      show "console (snd out2) = console w"
        using d2(7) d(7) by simp
    qed
    with Inr show ?thesis by simp
  qed
qed

lemma performs_for_each:
  assumes body: "\<And>i w. performs io p w (body i w) (with_newlines (fst (step i (rng w))))"
    and nxt: "\<And>i w. fst (body i w) = Inr () \<Longrightarrow> rng (snd (body i w)) = snd (step i (rng w))"
  shows "performs io p w (for_each is body w) (with_newlines (trace step (rng w) is))"
proof (induction "is" arbitrary: w)
  case Nil
  show ?case by (simp add: performs_nothing)
next
  case (Cons i "is")
  obtain res w1 where b: "body i w = (res, w1)" by (cases "body i w")
  obtain recs r1 where s: "step i (rng w) = (recs, r1)" by (cases "step i (rng w)")
  from body [of w i] b s have a: "performs io p w (res, w1) (with_newlines recs)" by simp
  have c: "performs io p w1 (for_each is body w1) (with_newlines (trace step r1 is))"
    if "res = Inr ()"
  proof -
    from nxt [of i w] b s that have "rng w1 = r1" by simp
    with Cons [of w1] show ?thesis by simp
  qed
  have "for_each (i # is) body w =
          (case res of Inl e \<Rightarrow> (Inl e, w1) | Inr u \<Rightarrow> for_each is body w1)"
    using b by (simp split: sum.splits)
  with performs_seq [OF a c] s show ?case by simp
qed

lemma with_open_closed: "\<not> can_open io p \<Longrightarrow> with_open_w io p body w = (Inl OSError, w)"
  by (simp add: with_open_w_def open_w_def)

lemma with_open_performs:
  assumes o: "can_open io p" and b: "\<And>w1. rng w1 = rng w \<Longrightarrow> performs io p w1 (body w1) cs"
  shows "(fst (with_open_w io p body w) = Inr ()) = run_ok io p cs"
    and "files (snd (with_open_w io p body w)) = (files w)(p \<mapsto> final_contents io p cs)"
    and "buffered (snd (with_open_w io p body w)) = (buffered w)(p := [])"
    and "handles (snd (with_open_w io p body w)) = handles w"
    and "console (snd (with_open_w io p body w)) = console w"
proof -
  let ?w1 = "w\<lparr>files := (files w)(p \<mapsto> []), buffered := (buffered w)(p := []),
               handles := p # handles w\<rparr>"
  obtain res w2 where e: "body ?w1 = (res, w2)" by (cases "body ?w1")
  obtain ok d bf where s: "buffered_writes io p [] [] cs = (ok, d, bf)"
    by (cases "buffered_writes io p [] [] cs")
  have c1: "cont p ?w1 = []" "buffered ?w1 p = []" by (simp_all add: cont_def)
  have r0: "rng ?w1 = rng w" by simp
  note pd = performsD [OF b [of ?w1, OF r0], unfolded e c1 s fst_conv snd_conv]
  have r: "(res = Inr ()) = ok" and c: "cont p w2 = d" "buffered w2 p = bf"
    by (rule pd(1), rule pd(2), rule pd(3))
  have f': "(files w2)(p := x) = (files w)(p := x)" for x by (subst pd(4)) simp
  have g': "(buffered w2)(p := x) = (buffered w)(p := x)" for x by (subst pd(5)) simp
  have h: "handles w2 = p # handles w" "console w2 = console w"
    using pd(6) pd(7) by simp_all
  have u: "with_open_w io p body w =
             (case f_close io p w2 of (Inl e, w3) \<Rightarrow> (Inl e, w3) | (Inr u, w3) \<Rightarrow> (res, w3))"
    using o e by (simp add: with_open_w_def open_w_def)
  show "(fst (with_open_w io p body w) = Inr ()) = run_ok io p cs"
    unfolding u using r c s
    by (auto simp: f_close_def flush_def run_ok_def split: option.splits)
  show "files (snd (with_open_w io p body w)) = (files w)(p \<mapsto> final_contents io p cs)"
    unfolding u using c s
    by (auto simp: f_close_def flush_def final_contents_def f' split: option.splits)
  show "buffered (snd (with_open_w io p body w)) = (buffered w)(p := [])"
    unfolding u by (auto simp: f_close_def flush_def g' split: option.splits)
  show "handles (snd (with_open_w io p body w)) = handles w"
    unfolding u using h by (auto simp: f_close_def flush_def split: option.splits)
  show "console (snd (with_open_w io p body w)) = console w"
    unfolding u using h by (auto simp: f_close_def flush_def split: option.splits)
qed

lemma with_open_rng:
  assumes "\<And>w1. rng (snd (body w1)) = rng w1"
  shows "rng (snd (with_open_w io p body w)) = rng w"
proof (cases "can_open io p")
  case False
  then show ?thesis by (simp add: with_open_closed)
next
  case True
  let ?w1 = "w\<lparr>files := (files w)(p \<mapsto> []), buffered := (buffered w)(p := []),
               handles := p # handles w\<rparr>"
  obtain res w2 where e: "body ?w1 = (res, w2)" by (cases "body ?w1")
  from assms [of ?w1] e have "rng w2 = rng w" by simp
  then show ?thesis
    using True e
    by (auto simp: with_open_w_def open_w_def f_close_def flush_def split: option.splits)
qed

lemma f_write_rng: "rng (snd (f_write io p s w)) = rng w"
  by (simp add: f_write_def flush_def Let_def split: option.splits)

lemma hist_body_performs:
  "performs io hist_path w (hist_body io oha i w)
     (with_newlines (fst (hist_step oha i (rng w))))"
proof -
  let ?t = "oha + i * 1000"
  obtain res w1 where w1: "f_write io hist_path (hist_line1 ?t i) w = (res, w1)"
    by (cases "f_write io hist_path (hist_line1 ?t i) w")
  have a: "performs io hist_path w (res, w1) [hist_line1 ?t i]"
    using performs_write [of io hist_path w "hist_line1 ?t i"] w1 by simp
  have b: "performs io hist_path w1 (f_write io hist_path (hist_line2 ?t i) w1)
             [hist_line2 ?t i]"
    by (rule performs_write)
  have c: "with_newlines (fst (hist_step oha i (rng w))) = [hist_line1 ?t i] @ [hist_line2 ?t i]"
    by (simp add: hist_step_def hist_pair_def hist_line1_record hist_line2_record)
  have d: "hist_body io oha i w =
             (case res of Inl e \<Rightarrow> (Inl e, w1)
              | Inr u \<Rightarrow> f_write io hist_path (hist_line2 ?t i) w1)"
    by (simp add: hist_body_def Let_def w1 split: sum.splits)
  show ?thesis unfolding c d by (rule performs_seq [OF a b])
qed

lemma hist_body_rng: "rng (snd (hist_body io oha i w)) = rng w"
proof -
  let ?t = "oha + i * 1000"
  obtain res w1 where w1: "f_write io hist_path (hist_line1 ?t i) w = (res, w1)"
    by (cases "f_write io hist_path (hist_line1 ?t i) w")
  from f_write_rng [of io hist_path "hist_line1 ?t i" w] w1 have "rng w1 = rng w" by simp
  with w1 f_write_rng [of io hist_path "hist_line2 ?t i" w1] show ?thesis
    by (cases res) (simp_all add: hist_body_def Let_def)
qed

lemma hist_body_next:
  "fst (hist_body io oha i w) = Inr () \<Longrightarrow>
     rng (snd (hist_body io oha i w)) = snd (hist_step oha i (rng w))"
  by (simp add: hist_body_rng hist_step_def)

lemma real_body_unfold:
  assumes u1: "uniform fe (rng w) (- (1 / 2)) (1 / 2) = (noise, r1)"
    and u2: "uniform fe r1 (- (1 / 2)) (1 / 2) = (noise2, r2)"
    and w1: "f_write io real_path (real_line1 (1000 * i) (real_val1 fe i noise))
               (w\<lparr>rng := r1\<rparr>) = (res, w1)"
  shows "real_body io fe i w =
      (case res of Inl e \<Rightarrow> (Inl e, w1)
       | Inr u \<Rightarrow> f_write io real_path (real_line2 (1000 * i) (real_val2 fe i noise2))
                    (w1\<lparr>rng := r2\<rparr>))"
proof -
  have "rng w1 = r1"
    using f_write_rng [of io real_path "real_line1 (1000 * i) (real_val1 fe i noise)"
        "w\<lparr>rng := r1\<rparr>"] w1 by simp
  then show ?thesis
    unfolding real_body_def Let_def draw_noise_def real_val1_def [symmetric]
      real_val2_def [symmetric]
    by (simp add: u1 u2 w1 split: sum.splits)
qed

lemma real_body_performs:
  "performs io real_path w (real_body io fe i w)
     (with_newlines (fst (real_step fe i (rng w)))) \<and>
   (fst (real_body io fe i w) = Inr () \<longrightarrow>
      rng (snd (real_body io fe i w)) = snd (real_step fe i (rng w)))"
proof -
  let ?t = "1000 * i"
  obtain noise r1 where u1: "uniform fe (rng w) (- (1 / 2)) (1 / 2) = (noise, r1)"
    by (cases "uniform fe (rng w) (- (1 / 2)) (1 / 2)")
  obtain noise2 r2 where u2: "uniform fe r1 (- (1 / 2)) (1 / 2) = (noise2, r2)"
    by (cases "uniform fe r1 (- (1 / 2)) (1 / 2)")
  let ?l1 = "real_line1 ?t (real_val1 fe i noise)"
  let ?l2 = "real_line2 ?t (real_val2 fe i noise2)"
  let ?wa = "w\<lparr>rng := r1\<rparr>"
  obtain res w1 where w1: "f_write io real_path ?l1 ?wa = (res, w1)"
    by (cases "f_write io real_path ?l1 ?wa")
  have "performs io real_path ?wa (res, w1) [?l1]"
    using performs_write [of io real_path ?wa ?l1] w1 by simp
  then have a: "performs io real_path w (res, w1) [?l1]" by (rule performs_rng)
  have b: "performs io real_path w1 (f_write io real_path ?l2 (w1\<lparr>rng := r2\<rparr>)) [?l2]"
    by (rule performs_rng [where r = r2]) (rule performs_write)
  have c: "with_newlines (fst (real_step fe i (rng w))) = [?l1] @ [?l2]"
    by (simp add: real_step_def u1 u2 real_line1_record real_line2_record)
  have nxt: "snd (real_step fe i (rng w)) = r2"
    by (simp add: real_step_def u1 u2)
  note d = real_body_unfold [OF u1 u2 w1]
  have p: "performs io real_path w (real_body io fe i w)
             (with_newlines (fst (real_step fe i (rng w))))"
    unfolding c d by (rule performs_seq [OF a b])
  have "rng (snd (real_body io fe i w)) = r2" if "fst (real_body io fe i w) = Inr ()"
  proof (cases res)
    case (Inl e)
    with that d show ?thesis by simp
  next
    case (Inr u)
    with d f_write_rng [of io real_path ?l2 "w1\<lparr>rng := r2\<rparr>"] show ?thesis by simp
  qed
  with p nxt show ?thesis by simp
qed

lemma hist_loop_performs:
  "performs io hist_path w (for_each (py_range 100) (hist_body io (now - (60 * 60 * 1000))) w)
     (with_newlines (hist_records now))"
  using performs_for_each [of io hist_path "hist_body io (now - (60 * 60 * 1000))"
      "hist_step (now - (60 * 60 * 1000))" w "py_range 100",
      OF hist_body_performs hist_body_next]
  by (simp add: trace_hist hist_records_def)

lemma real_loop_performs:
  "performs io real_path w (for_each (py_range num_points) (real_body io fe) w)
     (with_newlines (real_records fe (rng w)))"
proof -
  have a: "performs io real_path v (real_body io fe i v)
             (with_newlines (fst (real_step fe i (rng v))))" for i and v :: "'a world"
    using real_body_performs [of io v fe i] by simp
  have b: "fst (real_body io fe i v) = Inr () \<Longrightarrow>
             rng (snd (real_body io fe i v)) = snd (real_step fe i (rng v))"
    for i and v :: "'a world"
    using real_body_performs [of io v fe i] by simp
  from performs_for_each [of io real_path "real_body io fe" "real_step fe" w
      "py_range num_points", OF a b]
  show ?thesis by (simp add: real_records_def)
qed

lemma hist_loop_rng:
  "rng (snd (for_each (py_range 100) (hist_body io oha) w)) = rng w"
  by (rule for_each_rng) (rule hist_body_rng)

lemma hist_open_fails:
  "\<not> can_open io hist_path \<Longrightarrow> generate_historical_graph io now w = (Inl OSError, w)"
  unfolding hist_unfold by (simp add: with_open_closed)

lemma real_open_fails:
  "\<not> can_open io real_path \<Longrightarrow> generate_realistic_data io fe w = (Inl OSError, w)"
  unfolding real_unfold by (simp add: with_open_closed)

lemma hist_run:
  assumes "can_open io hist_path"
  shows "(fst (generate_historical_graph io now w) = Inr ()) =
           run_ok io hist_path (with_newlines (hist_records now))"
    and "files (snd (generate_historical_graph io now w)) =
           (files w)(hist_path \<mapsto>
              final_contents io hist_path (with_newlines (hist_records now)))"
    and "buffered (snd (generate_historical_graph io now w)) = (buffered w)(hist_path := [])"
    and "handles (snd (generate_historical_graph io now w)) = handles w"
    and "console (snd (generate_historical_graph io now w)) =
           (if run_ok io hist_path (with_newlines (hist_records now))
            then console w @ [hist_message now] else console w)"
proof -
  let ?body = "for_each (py_range 100) (hist_body io (now - (60 * 60 * 1000)))"
  obtain res w1 where e: "with_open_w io hist_path ?body w = (res, w1)"
    by (cases "with_open_w io hist_path ?body w")
  note p = with_open_performs [where body = ?body and w = w and io = io and p = hist_path
      and cs = "with_newlines (hist_records now)", OF assms hist_loop_performs,
      unfolded e fst_conv snd_conv]
  have g: "generate_historical_graph io now w =
             (case res of Inl x \<Rightarrow> (Inl x, w1) | Inr u \<Rightarrow> (Inr (), print (hist_message now) w1))"
    unfolding hist_unfold e by (simp split: sum.splits)
  show "(fst (generate_historical_graph io now w) = Inr ()) =
           run_ok io hist_path (with_newlines (hist_records now))"
    unfolding g using p(1) by (cases res) simp_all
  show "files (snd (generate_historical_graph io now w)) =
           (files w)(hist_path \<mapsto>
              final_contents io hist_path (with_newlines (hist_records now)))"
    unfolding g using p(2) by (cases res) (simp_all add: print_def)
  show "buffered (snd (generate_historical_graph io now w)) = (buffered w)(hist_path := [])"
    unfolding g using p(3) by (cases res) (simp_all add: print_def)
  show "handles (snd (generate_historical_graph io now w)) = handles w"
    unfolding g using p(4) by (cases res) (simp_all add: print_def)
  show "console (snd (generate_historical_graph io now w)) =
           (if run_ok io hist_path (with_newlines (hist_records now))
            then console w @ [hist_message now] else console w)"
    unfolding g using p(1) p(5) by (cases res) (auto simp: print_def)
qed

lemma real_run:
  assumes "can_open io real_path"
  shows "(fst (generate_realistic_data io fe w) = Inr ()) =
           run_ok io real_path (with_newlines (real_records fe (rng w)))"
    and "files (snd (generate_realistic_data io fe w)) =
           (files w)(real_path \<mapsto>
              final_contents io real_path (with_newlines (real_records fe (rng w))))"
    and "buffered (snd (generate_realistic_data io fe w)) = (buffered w)(real_path := [])"
    and "handles (snd (generate_realistic_data io fe w)) = handles w"
    and "console (snd (generate_realistic_data io fe w)) =
           (if run_ok io real_path (with_newlines (real_records fe (rng w)))
            then console w @ [real_message] else console w)"
proof -
  let ?body = "for_each (py_range num_points) (real_body io fe)"
  obtain res w1 where e: "with_open_w io real_path ?body w = (res, w1)"
    by (cases "with_open_w io real_path ?body w")
  have lp: "performs io real_path v (?body v) (with_newlines (real_records fe (rng w)))"
    if "rng v = rng w" for v :: "'a world"
    using real_loop_performs [of io v fe] that by simp
  note p = with_open_performs [where body = ?body and w = w and io = io and p = real_path
      and cs = "with_newlines (real_records fe (rng w))", OF assms lp,
      unfolded e fst_conv snd_conv]
  have g: "generate_realistic_data io fe w =
             (case res of Inl x \<Rightarrow> (Inl x, w1) | Inr u \<Rightarrow> (Inr (), print real_message w1))"
    unfolding real_unfold e by (simp split: sum.splits)
  show "(fst (generate_realistic_data io fe w) = Inr ()) =
           run_ok io real_path (with_newlines (real_records fe (rng w)))"
    unfolding g using p(1) by (cases res) simp_all
  show "files (snd (generate_realistic_data io fe w)) =
           (files w)(real_path \<mapsto>
              final_contents io real_path (with_newlines (real_records fe (rng w))))"
    unfolding g using p(2) by (cases res) (simp_all add: print_def)
  show "buffered (snd (generate_realistic_data io fe w)) = (buffered w)(real_path := [])"
    unfolding g using p(3) by (cases res) (simp_all add: print_def)
  show "handles (snd (generate_realistic_data io fe w)) = handles w"
    unfolding g using p(4) by (cases res) (simp_all add: print_def)
  show "console (snd (generate_realistic_data io fe w)) =
           (if run_ok io real_path (with_newlines (real_records fe (rng w)))
            then console w @ [real_message] else console w)"
    unfolding g using p(1) p(5) by (cases res) (auto simp: print_def)
qed

lemma hist_rng: "rng (snd (generate_historical_graph io now w)) = rng w"
proof -
  let ?body = "for_each (py_range 100) (hist_body io (now - (60 * 60 * 1000)))"
  obtain res w1 where e: "with_open_w io hist_path ?body w = (res, w1)"
    by (cases "with_open_w io hist_path ?body w")
  from with_open_rng [where body = ?body and io = io and p = hist_path and w = w,
      OF hist_loop_rng] e
  have "rng w1 = rng w" by simp
  then show ?thesis unfolding hist_unfold e by (cases res) (simp_all add: print_def)
qed

lemma hist_completes_iff:
  "(fst (generate_historical_graph io now w) = Inr ()) =
     (can_open io hist_path \<and> run_ok io hist_path (with_newlines (hist_records now)))"
proof (cases "can_open io hist_path")
  case True
  with hist_run(1) [OF True, of now w] show ?thesis by simp
next
  case False
  then show ?thesis by (simp add: hist_open_fails)
qed

lemma real_completes_iff:
  "(fst (generate_realistic_data io fe w) = Inr ()) =
     (can_open io real_path \<and> run_ok io real_path (with_newlines (real_records fe (rng w))))"
proof (cases "can_open io real_path")
  case True
  with real_run(1) [OF True, of fe w] show ?thesis by simp
next
  case False
  then show ?thesis by (simp add: real_open_fails)
qed

lemma hist_completed_file:
  assumes "fst (generate_historical_graph io now w) = Inr ()"
  shows "files (snd (generate_historical_graph io now w)) hist_path =
           Some (render (hist_records now))"
proof -
  from assms have o: "can_open io hist_path"
    and r: "run_ok io hist_path (with_newlines (hist_records now))"
    by (simp_all add: hist_completes_iff)
  show ?thesis
    by (simp add: hist_run(2) [OF o] final_contents_ok [OF r] render_with_newlines)
qed

lemma real_completed_file:
  assumes "fst (generate_realistic_data io fe w) = Inr ()"
  shows "files (snd (generate_realistic_data io fe w)) real_path =
           Some (render (real_records fe (rng w)))"
proof -
  from assms have o: "can_open io real_path"
    and r: "run_ok io real_path (with_newlines (real_records fe (rng w)))"
    by (simp_all add: real_completes_iff)
  show ?thesis
    by (simp add: real_run(2) [OF o] final_contents_ok [OF r] render_with_newlines)
qed

lemma hist_output:
  assumes "fst (generate_historical_graph io now w) = Inr ()"
  shows "output_lines hist_path (snd (generate_historical_graph io now w)) = hist_records now"
  by (simp add: output_lines_def hist_completed_file [OF assms] hist_file_lines)

lemma real_output:
  assumes "fst (generate_realistic_data io fe w) = Inr ()"
  shows "output_lines real_path (snd (generate_realistic_data io fe w)) =
           real_records fe (rng w)"
  by (simp add: output_lines_def real_completed_file [OF assms] real_file_lines)

lemma hist_ok:
  assumes "can_open io hist_path" and "\<And>d b. write_fault io hist_path d b = None"
  shows "fst (generate_historical_graph io now w) = Inr ()"
  by (simp add: hist_completes_iff assms(1) run_ok_no_fault [OF assms(2)])

lemma real_ok:
  assumes "can_open io real_path" and "\<And>d b. write_fault io real_path d b = None"
  shows "fst (generate_realistic_data io fe w) = Inr ()"
  by (simp add: real_completes_iff assms(1) run_ok_no_fault [OF assms(2)])

lemma ok_io_hist: "fst (generate_historical_graph ok_io now w) = Inr ()"
  by (rule hist_ok) (simp_all add: ok_io_def)

lemma ok_io_real: "fst (generate_realistic_data ok_io fe w) = Inr ()"
  by (rule real_ok) (simp_all add: ok_io_def)

lemma digit_cases: "d < 10 \<Longrightarrow> d \<in> {0, 1, 2, 3, 4, 5, 6, 7, 8, 9 :: nat}"
  by auto

lemma digit_value_digit_char: "d < 10 \<Longrightarrow> digit_value (digit_char d) = d"
  using digit_cases [of d] by (auto simp: digit_value_def digit_char_def)


lemma is_digit_str_nat: "list_all is_digit (str_nat n)"
  using str_nat_chars [of n] unfolding list_all_iff is_digit_def by blast

lemma not_digit: "\<not> is_digit CHR ''-''" "\<not> is_digit CHR ''.''"
  by (simp_all add: is_digit_def)

lemma read_digits_str_nat: "foldl (\<lambda>a c. 10 * a + digit_value c) 0 (str_nat n) = n"
proof (induction n rule: str_nat.induct)
  case (1 n)
  show ?case
  proof (cases "n < 10")
    case True
    then show ?thesis by (simp add: str_nat_small digit_value_digit_char)
  next
    case False
    then have b: "10 \<le> n" by simp
    have "n mod 10 < 10" by simp
    from digit_value_digit_char [OF this] 1 [OF False] show ?thesis
      by (simp add: str_nat_big [OF b])
  qed
qed

lemma read_nat_str_nat: "read_nat (str_nat n) = Some n"
  by (simp add: read_nat_def str_nat_nonempty is_digit_str_nat read_digits_str_nat)

lemma str_nat_head: "\<exists>c cs. str_nat n = c # cs \<and> is_digit c"
proof (cases "str_nat n")
  case Nil
  with str_nat_nonempty [of n] show ?thesis by simp
next
  case (Cons c cs)
  with is_digit_str_nat [of n] show ?thesis by simp
qed

lemma read_int_str_int: "read_int (str_int n) = Some n"
proof (cases "n < 0")
  case True
  then show ?thesis by (simp add: read_int_def str_int_def read_nat_str_nat)
next
  case False
  from str_nat_head [of "nat n"] obtain c cs where e: "str_nat (nat n) = c # cs" "is_digit c"
    by blast
  with not_digit(1) have "c \<noteq> CHR ''-''" by auto
  moreover from e(1) have "read_nat (c # cs) = Some (nat n)"
    using read_nat_str_nat [of "nat n"] by simp
  ultimately show ?thesis using False e(1) by (simp add: read_int_def str_int_def)
qed



lemma hist_lines_eq:
  assumes "fst (generate_historical_graph io now w) = Inr ()"
  shows "hist_lines io now w = hist_records now"
  unfolding hist_lines_def hist_path_def [symmetric] by (rule hist_output [OF assms])

lemma real_lines_eq:
  assumes "fst (generate_realistic_data io fe w) = Inr ()"
  shows "real_lines io fe w = real_records fe (rng w)"
  unfolding real_lines_def real_path_def [symmetric] by (rule real_output [OF assms])

lemma residue_cases: "i mod 5 \<in> {0, 1, 2, 3, 4 :: nat}"
proof -
  have "i mod 5 < 5" by simp
  then show ?thesis by (simp add: insert_iff) arith
qed

lemma residue_int: "int i mod 5 = int (i mod 5)"
  by (simp add: zmod_int)

lemma lit20: "str_int (20 + int i mod 5) = [''20'', ''21'', ''22'', ''23'', ''24''] ! (i mod 5)"
  unfolding residue_int using residue_cases [of i] str_int_small by auto

lemma lit22: "str_int (22 + int i mod 5) = [''22'', ''23'', ''24'', ''25'', ''26''] ! (i mod 5)"
  unfolding residue_int using residue_cases [of i] str_int_small by auto

lemma lexical_literal:
  "CHR 0x22 \<notin> set s \<Longrightarrow>
     lexical (''\"'' @ s @ ''\"^^<http://www.w3.org/2001/XMLSchema#decimal>'') = s"
proof -
  assume "CHR 0x22 \<notin> set s"
  then have "takeWhile (\<lambda>c. c \<noteq> CHR 0x22) s = s" by (auto simp: takeWhile_eq_all_conv)
  then show ?thesis by (simp add: lexical_def takeWhile_tail)
qed

lemma hist_line_fields:
  assumes "i < 100"
  shows "split_fields (hist_records now ! (2 * i)) =
           [str_int (now - 3600000 + 1000 * int i), ''<http://example.org/sensor1>'',
            ''<http://example.org/temperature>'',
            ''\"'' @ str_int (20 + int i mod 5) @ ''\"^^<http://www.w3.org/2001/XMLSchema#decimal>'',
            ''<http://example.org/sensorStream>'', ''.'']"
    and "split_fields (hist_records now ! (2 * i + 1)) =
           [str_int (now - 3600000 + 1000 * int i), ''<http://example.org/sensor2>'',
            ''<http://example.org/temperature>'',
            ''\"'' @ str_int (22 + int i mod 5) @ ''\"^^<http://www.w3.org/2001/XMLSchema#decimal>'',
            ''<http://example.org/sensorStream>'', ''.'']"
proof -
  have c: "int i * 1000 = 1000 * int i" by simp
  show "split_fields (hist_records now ! (2 * i)) =
           [str_int (now - 3600000 + 1000 * int i), ''<http://example.org/sensor1>'',
            ''<http://example.org/temperature>'',
            ''\"'' @ str_int (20 + int i mod 5) @ ''\"^^<http://www.w3.org/2001/XMLSchema#decimal>'',
            ''<http://example.org/sensorStream>'', ''.'']"
    unfolding hist_fields(1) [OF assms] c sensor1_uri_def temperature_uri_def stream_uri_def
      decimal_literal_def ..
  show "split_fields (hist_records now ! (2 * i + 1)) =
           [str_int (now - 3600000 + 1000 * int i), ''<http://example.org/sensor2>'',
            ''<http://example.org/temperature>'',
            ''\"'' @ str_int (22 + int i mod 5) @ ''\"^^<http://www.w3.org/2001/XMLSchema#decimal>'',
            ''<http://example.org/sensorStream>'', ''.'']"
    unfolding hist_fields(2) [OF assms] c sensor2_uri_def temperature_uri_def stream_uri_def
      decimal_literal_def ..
qed

lemma hist_values_at:
  assumes "i < 100"
  shows "field 1 (hist_records now ! (2 * i)) = ''<http://example.org/sensor1>''"
    and "field 3 (hist_records now ! (2 * i)) =
           ''\"'' @ [''20'', ''21'', ''22'', ''23'', ''24''] ! (i mod 5) @
           ''\"^^<http://www.w3.org/2001/XMLSchema#decimal>''"
    and "lexical (field 3 (hist_records now ! (2 * i))) = str_int (20 + int i mod 5)"
    and "field 1 (hist_records now ! (2 * i + 1)) = ''<http://example.org/sensor2>''"
    and "field 3 (hist_records now ! (2 * i + 1)) =
           ''\"'' @ [''22'', ''23'', ''24'', ''25'', ''26''] ! (i mod 5) @
           ''\"^^<http://www.w3.org/2001/XMLSchema#decimal>''"
    and "lexical (field 3 (hist_records now ! (2 * i + 1))) = str_int (22 + int i mod 5)"
    and "read_int (lexical (field 3 (hist_records now ! (2 * i)))) = Some (20 + int (i mod 5))"
    and "read_int (lexical (field 3 (hist_records now ! (2 * i + 1)))) =
           Some (22 + int (i mod 5))"
proof -
  note f = hist_line_fields [OF assms, of now]
  show "field 1 (hist_records now ! (2 * i)) = ''<http://example.org/sensor1>''"
    unfolding field_def f by simp
  show "field 3 (hist_records now ! (2 * i)) =
           ''\"'' @ [''20'', ''21'', ''22'', ''23'', ''24''] ! (i mod 5) @
           ''\"^^<http://www.w3.org/2001/XMLSchema#decimal>''"
    unfolding field_def f lit20 by simp
  show l1: "lexical (field 3 (hist_records now ! (2 * i))) = str_int (20 + int i mod 5)"
    unfolding field_def f using lexical_literal [OF int_no_quote, of "20 + int i mod 5"]
    by simp
  show "field 1 (hist_records now ! (2 * i + 1)) = ''<http://example.org/sensor2>''"
    unfolding field_def f by simp
  show "field 3 (hist_records now ! (2 * i + 1)) =
           ''\"'' @ [''22'', ''23'', ''24'', ''25'', ''26''] ! (i mod 5) @
           ''\"^^<http://www.w3.org/2001/XMLSchema#decimal>''"
    unfolding field_def f lit22 by simp
  show l2: "lexical (field 3 (hist_records now ! (2 * i + 1))) = str_int (22 + int i mod 5)"
    unfolding field_def f using lexical_literal [OF int_no_quote, of "22 + int i mod 5"]
    by simp
  show "read_int (lexical (field 3 (hist_records now ! (2 * i)))) = Some (20 + int (i mod 5))"
    unfolding l1 read_int_str_int residue_int ..
  show "read_int (lexical (field 3 (hist_records now ! (2 * i + 1)))) =
           Some (22 + int (i mod 5))"
    unfolding l2 read_int_str_int residue_int ..
qed

lemma line_index: "j < 2 * n \<Longrightarrow> \<exists>i<n. j = 2 * i \<or> j = 2 * i + (1 :: nat)"
  by presburger

text \<open>
  C1. A completed run of the historical generator leaves exactly 200 lines. For every index
  \<open>i\<close> below 100, line \<open>2 * i\<close> is a sensor1 record whose literal is the text \<^verbatim>\<open>"20"\<close>, \<^verbatim>\<open>"21"\<close>,
  \<^verbatim>\<open>"22"\<close>, \<^verbatim>\<open>"23"\<close> or \<^verbatim>\<open>"24"\<close> selected by \<open>i mod 5\<close>, tagged as a decimal, and reads back as the
  number \<open>20 + (i mod 5)\<close>; line \<open>2 * i + 1\<close> is a sensor2 record with \<^verbatim>\<open>"22"\<close> to \<^verbatim>\<open>"26"\<close>, reading
  back as \<open>22 + (i mod 5)\<close>. Every line of the file is a sensor1 or a sensor2 record, every
  sensor1 value is one of 20, 21, 22, 23, 24 and every sensor2 value one of 22, 23, 24, 25, 26.
\<close>

theorem historical_values:
  assumes "fst (generate_historical_graph io now w) = Inr ()"
  shows "length (hist_lines io now w) = 200 \<and>
         (\<forall>i<100.
            field 1 (hist_lines io now w ! (2 * i)) = ''<http://example.org/sensor1>'' \<and>
            field 3 (hist_lines io now w ! (2 * i)) =
              ''\"'' @ [''20'', ''21'', ''22'', ''23'', ''24''] ! (i mod 5) @
              ''\"^^<http://www.w3.org/2001/XMLSchema#decimal>'' \<and>
            read_int (lexical (field 3 (hist_lines io now w ! (2 * i)))) =
              Some (20 + int (i mod 5)) \<and>
            field 1 (hist_lines io now w ! (2 * i + 1)) = ''<http://example.org/sensor2>'' \<and>
            field 3 (hist_lines io now w ! (2 * i + 1)) =
              ''\"'' @ [''22'', ''23'', ''24'', ''25'', ''26''] ! (i mod 5) @
              ''\"^^<http://www.w3.org/2001/XMLSchema#decimal>'' \<and>
            read_int (lexical (field 3 (hist_lines io now w ! (2 * i + 1)))) =
              Some (22 + int (i mod 5))) \<and>
         (\<forall>j<200.
            field 1 (hist_lines io now w ! j) \<in>
              {''<http://example.org/sensor1>'', ''<http://example.org/sensor2>''} \<and>
            (field 1 (hist_lines io now w ! j) = ''<http://example.org/sensor1>'' \<longrightarrow>
               lexical (field 3 (hist_lines io now w ! j)) \<in>
                 {''20'', ''21'', ''22'', ''23'', ''24''}) \<and>
            (field 1 (hist_lines io now w ! j) = ''<http://example.org/sensor2>'' \<longrightarrow>
               lexical (field 3 (hist_lines io now w ! j)) \<in>
                 {''22'', ''23'', ''24'', ''25'', ''26''}))"
proof -
  note e = hist_lines_eq [OF assms]
  have a: "length (hist_lines io now w) = 200"
    unfolding e by (rule hist_records_length)
  have b: "field 1 (hist_lines io now w ! (2 * i)) = ''<http://example.org/sensor1>'' \<and>
           field 3 (hist_lines io now w ! (2 * i)) =
             ''\"'' @ [''20'', ''21'', ''22'', ''23'', ''24''] ! (i mod 5) @
             ''\"^^<http://www.w3.org/2001/XMLSchema#decimal>'' \<and>
           read_int (lexical (field 3 (hist_lines io now w ! (2 * i)))) =
             Some (20 + int (i mod 5)) \<and>
           field 1 (hist_lines io now w ! (2 * i + 1)) = ''<http://example.org/sensor2>'' \<and>
           field 3 (hist_lines io now w ! (2 * i + 1)) =
             ''\"'' @ [''22'', ''23'', ''24'', ''25'', ''26''] ! (i mod 5) @
             ''\"^^<http://www.w3.org/2001/XMLSchema#decimal>'' \<and>
           read_int (lexical (field 3 (hist_lines io now w ! (2 * i + 1)))) =
             Some (22 + int (i mod 5))" if "i < 100" for i
    unfolding e
    by (intro conjI, rule hist_values_at(1) [OF that], rule hist_values_at(2) [OF that],
        rule hist_values_at(7) [OF that], rule hist_values_at(4) [OF that],
        rule hist_values_at(5) [OF that], rule hist_values_at(8) [OF that])
  have c: "field 1 (hist_lines io now w ! j) \<in>
             {''<http://example.org/sensor1>'', ''<http://example.org/sensor2>''} \<and>
           (field 1 (hist_lines io now w ! j) = ''<http://example.org/sensor1>'' \<longrightarrow>
              lexical (field 3 (hist_lines io now w ! j)) \<in>
                {''20'', ''21'', ''22'', ''23'', ''24''}) \<and>
           (field 1 (hist_lines io now w ! j) = ''<http://example.org/sensor2>'' \<longrightarrow>
              lexical (field 3 (hist_lines io now w ! j)) \<in>
                {''22'', ''23'', ''24'', ''25'', ''26''})" if "j < 200" for j
  proof -
    from that line_index [of j 100] obtain i where i: "i < 100"
      and j: "j = 2 * i \<or> j = 2 * i + 1" by auto
    note v = hist_values_at [OF i, of now]
    from j show ?thesis
    proof
      assume "j = 2 * i"
      then show ?thesis
        unfolding e using v(1) v(3) residue_cases [of i]
        by (auto simp: lit20)
    next
      assume "j = 2 * i + 1"
      then show ?thesis
        unfolding e using v(4) v(6) residue_cases [of i]
        by (auto simp: lit22)
    qed
  qed
  from a b c show ?thesis by blast
qed

theorem historical_values_witness:
  "length (hist_lines ok_io 1700000000000 stale_world) = 200 \<and>
   field 1 (hist_lines ok_io 1700000000000 stale_world ! 14) = ''<http://example.org/sensor1>'' \<and>
   field 3 (hist_lines ok_io 1700000000000 stale_world ! 14) =
     ''\"22\"^^<http://www.w3.org/2001/XMLSchema#decimal>'' \<and>
   read_int (lexical (field 3 (hist_lines ok_io 1700000000000 stale_world ! 14))) = Some 22 \<and>
   field 1 (hist_lines ok_io 1700000000000 stale_world ! 15) = ''<http://example.org/sensor2>'' \<and>
   field 3 (hist_lines ok_io 1700000000000 stale_world ! 15) =
     ''\"24\"^^<http://www.w3.org/2001/XMLSchema#decimal>'' \<and>
   lexical (field 3 (hist_lines ok_io 1700000000000 stale_world ! 15)) \<in>
     {''22'', ''23'', ''24'', ''25'', ''26''}"
proof -
  note t = historical_values [OF ok_io_hist [of 1700000000000 stale_world]]
  from t have a: "length (hist_lines ok_io 1700000000000 stale_world) = 200" by (rule conjunct1)
  from t [THEN conjunct2, THEN conjunct1, rule_format, of 7]
  have b: "field 1 (hist_lines ok_io 1700000000000 stale_world ! 14) =
             ''<http://example.org/sensor1>'' \<and>
           field 3 (hist_lines ok_io 1700000000000 stale_world ! 14) =
             ''\"22\"^^<http://www.w3.org/2001/XMLSchema#decimal>'' \<and>
           read_int (lexical (field 3 (hist_lines ok_io 1700000000000 stale_world ! 14))) =
             Some 22 \<and>
           field 1 (hist_lines ok_io 1700000000000 stale_world ! 15) =
             ''<http://example.org/sensor2>'' \<and>
           field 3 (hist_lines ok_io 1700000000000 stale_world ! 15) =
             ''\"24\"^^<http://www.w3.org/2001/XMLSchema#decimal>''"
    by (simp add: lexical_def read_int_def read_nat_def is_digit_def digit_value_def)
  from t [THEN conjunct2, THEN conjunct2, rule_format, of 15] b
  have "lexical (field 3 (hist_lines ok_io 1700000000000 stale_world ! 15)) \<in>
          {''22'', ''23'', ''24'', ''25'', ''26''}"
    by (simp add: lexical_def)
  with a b show ?thesis by blast
qed

lemma hist_time_at:
  assumes "i < 100"
  shows "field 0 (hist_records now ! (2 * i)) = str_int (now - 3600000 + 1000 * int i)"
    and "field 0 (hist_records now ! (2 * i + 1)) = str_int (now - 3600000 + 1000 * int i)"
    and "read_int (field 0 (hist_records now ! (2 * i))) = Some (now - 3600000 + 1000 * int i)"
    and "read_int (field 0 (hist_records now ! (2 * i + 1))) =
           Some (now - 3600000 + 1000 * int i)"
proof -
  note f = hist_line_fields [OF assms, of now]
  show a: "field 0 (hist_records now ! (2 * i)) = str_int (now - 3600000 + 1000 * int i)"
    unfolding field_def f by simp
  show b: "field 0 (hist_records now ! (2 * i + 1)) = str_int (now - 3600000 + 1000 * int i)"
    unfolding field_def f by simp
  show "read_int (field 0 (hist_records now ! (2 * i))) = Some (now - 3600000 + 1000 * int i)"
    unfolding a by (rule read_int_str_int)
  show "read_int (field 0 (hist_records now ! (2 * i + 1))) =
           Some (now - 3600000 + 1000 * int i)"
    unfolding b by (rule read_int_str_int)
qed

lemma real_line_fields:
  assumes "i < 1000"
  shows "\<exists>v1 v2.
           split_fields (real_records fe r ! (2 * i)) =
             [str_int (1000 * int i), ''<http://example.org/sensor1>'',
              ''<http://example.org/temperature>'',
              ''\"'' @ fmt2f v1 @ ''\"^^<http://www.w3.org/2001/XMLSchema#decimal>'',
              ''<http://example.org/sensorStream>'', ''.''] \<and>
           split_fields (real_records fe r ! (2 * i + 1)) =
             [str_int (1000 * int i), ''<http://example.org/sensor2>'',
              ''<http://example.org/temperature>'',
              ''\"'' @ fmt2f v2 @ ''\"^^<http://www.w3.org/2001/XMLSchema#decimal>'',
              ''<http://example.org/sensorStream>'', ''.'']"
  using real_fields [OF assms, of fe r]
  unfolding sensor1_uri_def sensor2_uri_def temperature_uri_def stream_uri_def
    decimal_literal_def .

lemma real_time_at:
  assumes "i < 1000"
  shows "field 0 (real_records fe r ! (2 * i)) = str_int (1000 * int i)"
    and "field 0 (real_records fe r ! (2 * i + 1)) = str_int (1000 * int i)"
    and "read_int (field 0 (real_records fe r ! (2 * i))) = Some (1000 * int i)"
    and "read_int (field 0 (real_records fe r ! (2 * i + 1))) = Some (1000 * int i)"
    and "field 1 (real_records fe r ! (2 * i)) = ''<http://example.org/sensor1>''"
    and "field 1 (real_records fe r ! (2 * i + 1)) = ''<http://example.org/sensor2>''"
proof -
  from real_line_fields [OF assms, of fe r] obtain v1 v2 where
    f: "split_fields (real_records fe r ! (2 * i)) =
             [str_int (1000 * int i), ''<http://example.org/sensor1>'',
              ''<http://example.org/temperature>'',
              ''\"'' @ fmt2f v1 @ ''\"^^<http://www.w3.org/2001/XMLSchema#decimal>'',
              ''<http://example.org/sensorStream>'', ''.'']"
       "split_fields (real_records fe r ! (2 * i + 1)) =
             [str_int (1000 * int i), ''<http://example.org/sensor2>'',
              ''<http://example.org/temperature>'',
              ''\"'' @ fmt2f v2 @ ''\"^^<http://www.w3.org/2001/XMLSchema#decimal>'',
              ''<http://example.org/sensorStream>'', ''.'']"
    by blast
  show a: "field 0 (real_records fe r ! (2 * i)) = str_int (1000 * int i)"
    unfolding field_def f by simp
  show b: "field 0 (real_records fe r ! (2 * i + 1)) = str_int (1000 * int i)"
    unfolding field_def f by simp
  show "read_int (field 0 (real_records fe r ! (2 * i))) = Some (1000 * int i)"
    unfolding a by (rule read_int_str_int)
  show "read_int (field 0 (real_records fe r ! (2 * i + 1))) = Some (1000 * int i)"
    unfolding b by (rule read_int_str_int)
  show "field 1 (real_records fe r ! (2 * i)) = ''<http://example.org/sensor1>''"
    unfolding field_def f by simp
  show "field 1 (real_records fe r ! (2 * i + 1)) = ''<http://example.org/sensor2>''"
    unfolding field_def f by simp
qed

lemma str_int_zero: "str_int 0 = ''0''"
  by (simp add: str_int_eval)

text \<open>
  C2. In a completed run of the historical generator that sampled the clock as \<open>now\<close>, for every
  index \<open>i\<close> below 100 the timestamp fields of lines \<open>2 * i\<close> (sensor1) and \<open>2 * i + 1\<close>
  (sensor2) are the same text and read back as \<open>now - 3600000 + 1000 * i\<close>; from one index to
  the next the timestamp of either sensor grows by exactly 1000. If \<open>now\<close> is 1700000000000, line
  0 is the sensor1 record with timestamp \<^verbatim>\<open>1699996400000\<close> and literal \<^verbatim>\<open>"20"\<close>.
\<close>

theorem historical_timestamps:
  assumes "fst (generate_historical_graph io now w) = Inr ()"
  shows "(\<forall>i<100.
            read_int (field 0 (hist_lines io now w ! (2 * i))) =
              Some (now - 3600000 + 1000 * int i) \<and>
            read_int (field 0 (hist_lines io now w ! (2 * i + 1))) =
              Some (now - 3600000 + 1000 * int i) \<and>
            field 0 (hist_lines io now w ! (2 * i + 1)) =
              field 0 (hist_lines io now w ! (2 * i))) \<and>
         (\<forall>i<99.
            read_int (field 0 (hist_lines io now w ! (2 * (i + 1)))) =
              map_option (\<lambda>t. t + 1000) (read_int (field 0 (hist_lines io now w ! (2 * i)))) \<and>
            read_int (field 0 (hist_lines io now w ! (2 * (i + 1) + 1))) =
              map_option (\<lambda>t. t + 1000)
                (read_int (field 0 (hist_lines io now w ! (2 * i + 1))))) \<and>
         (now = 1700000000000 \<longrightarrow>
            field 0 (hist_lines io now w ! 0) = ''1699996400000'' \<and>
            field 1 (hist_lines io now w ! 0) = ''<http://example.org/sensor1>'' \<and>
            field 3 (hist_lines io now w ! 0) =
              ''\"20\"^^<http://www.w3.org/2001/XMLSchema#decimal>'')"
proof -
  note e = hist_lines_eq [OF assms]
  have a: "read_int (field 0 (hist_lines io now w ! (2 * i))) =
             Some (now - 3600000 + 1000 * int i) \<and>
           read_int (field 0 (hist_lines io now w ! (2 * i + 1))) =
             Some (now - 3600000 + 1000 * int i) \<and>
           field 0 (hist_lines io now w ! (2 * i + 1)) =
             field 0 (hist_lines io now w ! (2 * i))" if "i < 100" for i
    unfolding e hist_time_at [OF that] by (simp add: read_int_str_int)
  have b: "read_int (field 0 (hist_lines io now w ! (2 * (i + 1)))) =
             map_option (\<lambda>t. t + 1000) (read_int (field 0 (hist_lines io now w ! (2 * i)))) \<and>
           read_int (field 0 (hist_lines io now w ! (2 * (i + 1) + 1))) =
             map_option (\<lambda>t. t + 1000)
               (read_int (field 0 (hist_lines io now w ! (2 * i + 1))))" if "i < 99" for i
  proof -
    from that have i: "i < 100" and j: "i + 1 < 100" by simp_all
    show ?thesis
      unfolding e hist_time_at(3,4) [OF i] hist_time_at(3,4) [OF j] by simp
  qed
  have c: "field 0 (hist_lines io now w ! 0) = ''1699996400000'' \<and>
           field 1 (hist_lines io now w ! 0) = ''<http://example.org/sensor1>'' \<and>
           field 3 (hist_lines io now w ! 0) =
             ''\"20\"^^<http://www.w3.org/2001/XMLSchema#decimal>''" if "now = 1700000000000"
  proof -
    have z: "(0 :: nat) < 100" by simp
    from hist_time_at(1) [OF z, of now] hist_values_at(1,2) [OF z, of now] that
    show ?thesis unfolding e by (simp add: str_int_scenario)
  qed
  from a b c show ?thesis by blast
qed

theorem historical_timestamps_witness:
  "read_int (field 0 (hist_lines ok_io 1700000000000 stale_world ! 14)) = Some 1699996407000 \<and>
   read_int (field 0 (hist_lines ok_io 1700000000000 stale_world ! 15)) = Some 1699996407000 \<and>
   read_int (field 0 (hist_lines ok_io 1700000000000 stale_world ! 16)) = Some 1699996408000 \<and>
   field 0 (hist_lines ok_io 1700000000000 stale_world ! 0) = ''1699996400000'' \<and>
   field 3 (hist_lines ok_io 1700000000000 stale_world ! 0) =
     ''\"20\"^^<http://www.w3.org/2001/XMLSchema#decimal>''"
proof -
  note t = historical_timestamps [OF ok_io_hist [of 1700000000000 stale_world]]
  from t [THEN conjunct1, rule_format, of 7]
  have a: "read_int (field 0 (hist_lines ok_io 1700000000000 stale_world ! 14)) =
             Some 1699996407000"
    "read_int (field 0 (hist_lines ok_io 1700000000000 stale_world ! 15)) = Some 1699996407000"
    by simp_all
  from t [THEN conjunct2, THEN conjunct1, rule_format, of 7] a
  have b: "read_int (field 0 (hist_lines ok_io 1700000000000 stale_world ! 16)) =
             Some 1699996408000"
    by simp
  from t [THEN conjunct2, THEN conjunct2]
  have c: "field 0 (hist_lines ok_io 1700000000000 stale_world ! 0) = ''1699996400000'' \<and>
           field 3 (hist_lines ok_io 1700000000000 stale_world ! 0) =
             ''\"20\"^^<http://www.w3.org/2001/XMLSchema#decimal>''"
    by simp
  from a b c show ?thesis by blast
qed

text \<open>
  C4. In a completed run of the realistic generator, for every index \<open>i\<close> below 1000 the
  timestamp fields of the sensor1 line \<open>2 * i\<close> and of the sensor2 line \<open>2 * i + 1\<close> read back
  as \<open>1000 * i\<close>, whatever the state of the process and of its runtime; the first two lines carry
  the timestamp \<^verbatim>\<open>0\<close>.
\<close>

theorem realistic_timestamps:
  assumes "fst (generate_realistic_data io fe w) = Inr ()"
  shows "(\<forall>i<1000.
            field 1 (real_lines io fe w ! (2 * i)) = ''<http://example.org/sensor1>'' \<and>
            read_int (field 0 (real_lines io fe w ! (2 * i))) = Some (1000 * int i) \<and>
            field 1 (real_lines io fe w ! (2 * i + 1)) = ''<http://example.org/sensor2>'' \<and>
            read_int (field 0 (real_lines io fe w ! (2 * i + 1))) = Some (1000 * int i)) \<and>
         field 0 (real_lines io fe w ! 0) = ''0'' \<and>
         field 0 (real_lines io fe w ! 1) = ''0''"
proof -
  note e = real_lines_eq [OF assms]
  have a: "field 1 (real_lines io fe w ! (2 * i)) = ''<http://example.org/sensor1>'' \<and>
           read_int (field 0 (real_lines io fe w ! (2 * i))) = Some (1000 * int i) \<and>
           field 1 (real_lines io fe w ! (2 * i + 1)) = ''<http://example.org/sensor2>'' \<and>
           read_int (field 0 (real_lines io fe w ! (2 * i + 1))) = Some (1000 * int i)"
    if "i < 1000" for i
    unfolding e real_time_at [OF that] by (simp add: read_int_str_int)
  have z: "(0 :: nat) < 1000" by simp
  from real_time_at(1,2) [OF z, of fe "rng w"]
  have b: "field 0 (real_lines io fe w ! 0) = ''0''" "field 0 (real_lines io fe w ! 1) = ''0''"
    unfolding e by (simp_all add: str_int_zero)
  from a b show ?thesis by blast
qed

theorem realistic_timestamps_witness:
  "field 1 (real_lines ok_io sample_runtime stale_world ! 14) = ''<http://example.org/sensor1>'' \<and>
   read_int (field 0 (real_lines ok_io sample_runtime stale_world ! 14)) = Some 7000 \<and>
   field 1 (real_lines ok_io sample_runtime stale_world ! 15) = ''<http://example.org/sensor2>'' \<and>
   read_int (field 0 (real_lines ok_io sample_runtime stale_world ! 15)) = Some 7000 \<and>
   field 0 (real_lines ok_io sample_runtime stale_world ! 0) = ''0''"
proof -
  note t = realistic_timestamps [OF ok_io_real [of sample_runtime stale_world]]
  from t [THEN conjunct1, rule_format, of 7] t [THEN conjunct2, THEN conjunct1]
  show ?thesis by simp
qed





lemma newlines_render:
  "\<forall>b\<in>set recs. CHR 0x0A \<notin> set b \<Longrightarrow> newlines (render recs) = length recs"
proof (induction recs)
  case Nil
  show ?case by (simp add: newlines_def)
next
  case (Cons x xs)
  then have "filter (\<lambda>c. c = CHR 0x0A) x = []" by (auto simp: filter_empty_conv)
  with Cons show ?case by (simp add: newlines_def)
qed

lemma hist_file_text:
  assumes "fst (generate_historical_graph io now w) = Inr ()"
  shows "files (snd (generate_historical_graph io now w)) ''data/sensors_historical_graph.nq'' =
           Some (concat (map (\<lambda>l. l @ ''\<newline>'') (hist_lines io now w)))"
  unfolding hist_lines_eq [OF assms]
  using hist_completed_file [OF assms] by (simp add: hist_path_def render_def)

lemma real_file_text:
  assumes "fst (generate_realistic_data io fe w) = Inr ()"
  shows "files (snd (generate_realistic_data io fe w)) ''data/realistic_sensors.nq'' =
           Some (concat (map (\<lambda>l. l @ ''\<newline>'') (real_lines io fe w)))"
  unfolding real_lines_eq [OF assms]
  using real_completed_file [OF assms] by (simp add: real_path_def render_def)

lemma hist_newlines:
  assumes "fst (generate_historical_graph io now w) = Inr ()"
  shows "newlines (cont ''data/sensors_historical_graph.nq''
           (snd (generate_historical_graph io now w))) = 200"
proof -
  have "newlines (render (hist_records now)) = length (hist_records now)"
    by (rule newlines_render) (simp add: hist_records_no_newline)
  with hist_completed_file [OF assms] show ?thesis
    by (simp add: cont_def hist_path_def hist_records_length)
qed

lemma real_newlines:
  assumes "fst (generate_realistic_data io fe w) = Inr ()"
  shows "newlines (cont ''data/realistic_sensors.nq''
           (snd (generate_realistic_data io fe w))) = 2000"
proof -
  have "newlines (render (real_records fe (rng w))) = length (real_records fe (rng w))"
    by (rule newlines_render) (simp add: real_records_def trace_real_no_newline)
  with real_completed_file [OF assms] show ?thesis
    by (simp add: cont_def real_path_def real_records_length)
qed



text \<open>
  C6. After a completed run of the historical generator the file
  \<^verbatim>\<open>data/sensors_historical_graph.nq\<close> has exactly 200 lines (and 200 newline characters);
  after a completed run of the realistic generator the file \<^verbatim>\<open>data/realistic_sensors.nq\<close> has
  exactly 2000 lines (and 2000 newline characters).
\<close>

theorem line_counts:
  "(fst (generate_historical_graph io now w) = Inr () \<longrightarrow>
      length (hist_lines io now w) = 200 \<and>
      newlines (cont ''data/sensors_historical_graph.nq''
        (snd (generate_historical_graph io now w))) = 200) \<and>
   (fst (generate_realistic_data io fe w) = Inr () \<longrightarrow>
      length (real_lines io fe w) = 2000 \<and>
      newlines (cont ''data/realistic_sensors.nq''
        (snd (generate_realistic_data io fe w))) = 2000)"
proof (intro conjI impI)
  assume c: "fst (generate_historical_graph io now w) = Inr ()"
  show "length (hist_lines io now w) = 200"
    unfolding hist_lines_eq [OF c] by (rule hist_records_length)
  show "newlines (cont ''data/sensors_historical_graph.nq''
          (snd (generate_historical_graph io now w))) = 200"
    by (rule hist_newlines [OF c])
next
  assume c: "fst (generate_realistic_data io fe w) = Inr ()"
  show "length (real_lines io fe w) = 2000"
    unfolding real_lines_eq [OF c] by (rule real_records_length)
  show "newlines (cont ''data/realistic_sensors.nq''
          (snd (generate_realistic_data io fe w))) = 2000"
    by (rule real_newlines [OF c])
qed

theorem line_counts_witness:
  "length (hist_lines ok_io 1700000000000 stale_world) = 200 \<and>
   newlines (cont ''data/sensors_historical_graph.nq''
     (snd (generate_historical_graph ok_io 1700000000000 stale_world))) = 200 \<and>
   length (real_lines ok_io sample_runtime stale_world) = 2000 \<and>
   newlines (cont ''data/realistic_sensors.nq''
     (snd (generate_realistic_data ok_io sample_runtime stale_world))) = 2000"
  using line_counts [of ok_io 1700000000000 stale_world sample_runtime]
    ok_io_hist [of 1700000000000 stale_world] ok_io_real [of sample_runtime stale_world]
  by blast

text \<open>
  C10. In the file of a completed run of either generator the lines alternate by sensor: for
  every index \<open>i\<close>, line \<open>2 * i\<close> is the sensor1 record and line \<open>2 * i + 1\<close> the sensor2 record
  of that index (both carry the timestamp of index \<open>i\<close>), and these are all the lines.
\<close>

theorem lines_alternate:
  "(fst (generate_historical_graph io now w) = Inr () \<longrightarrow>
      length (hist_lines io now w) = 2 * 100 \<and>
      (\<forall>i<100.
         field 1 (hist_lines io now w ! (2 * i)) = ''<http://example.org/sensor1>'' \<and>
         field 1 (hist_lines io now w ! (2 * i + 1)) = ''<http://example.org/sensor2>'' \<and>
         read_int (field 0 (hist_lines io now w ! (2 * i))) =
           Some (now - 3600000 + 1000 * int i) \<and>
         read_int (field 0 (hist_lines io now w ! (2 * i + 1))) =
           Some (now - 3600000 + 1000 * int i))) \<and>
   (fst (generate_realistic_data io fe w) = Inr () \<longrightarrow>
      length (real_lines io fe w) = 2 * 1000 \<and>
      (\<forall>i<1000.
         field 1 (real_lines io fe w ! (2 * i)) = ''<http://example.org/sensor1>'' \<and>
         field 1 (real_lines io fe w ! (2 * i + 1)) = ''<http://example.org/sensor2>'' \<and>
         read_int (field 0 (real_lines io fe w ! (2 * i))) = Some (1000 * int i) \<and>
         read_int (field 0 (real_lines io fe w ! (2 * i + 1))) = Some (1000 * int i)))"
proof (intro conjI impI allI)
  assume c: "fst (generate_historical_graph io now w) = Inr ()"
  show "length (hist_lines io now w) = 2 * 100"
    unfolding hist_lines_eq [OF c] by (simp add: hist_records_length)
next
  fix i :: nat
  assume c: "fst (generate_historical_graph io now w) = Inr ()" and i: "i < 100"
  show "field 1 (hist_lines io now w ! (2 * i)) = ''<http://example.org/sensor1>''"
    unfolding hist_lines_eq [OF c] by (rule hist_values_at(1) [OF i])
  show "field 1 (hist_lines io now w ! (2 * i + 1)) = ''<http://example.org/sensor2>''"
    unfolding hist_lines_eq [OF c] by (rule hist_values_at(4) [OF i])
  show "read_int (field 0 (hist_lines io now w ! (2 * i))) =
          Some (now - 3600000 + 1000 * int i)"
    unfolding hist_lines_eq [OF c] by (rule hist_time_at(3) [OF i])
  show "read_int (field 0 (hist_lines io now w ! (2 * i + 1))) =
          Some (now - 3600000 + 1000 * int i)"
    unfolding hist_lines_eq [OF c] by (rule hist_time_at(4) [OF i])
next
  assume c: "fst (generate_realistic_data io fe w) = Inr ()"
  show "length (real_lines io fe w) = 2 * 1000"
    unfolding real_lines_eq [OF c] by (simp add: real_records_length)
next
  fix i :: nat
  assume c: "fst (generate_realistic_data io fe w) = Inr ()" and i: "i < 1000"
  show "field 1 (real_lines io fe w ! (2 * i)) = ''<http://example.org/sensor1>''"
    unfolding real_lines_eq [OF c] by (rule real_time_at(5) [OF i])
  show "field 1 (real_lines io fe w ! (2 * i + 1)) = ''<http://example.org/sensor2>''"
    unfolding real_lines_eq [OF c] by (rule real_time_at(6) [OF i])
  show "read_int (field 0 (real_lines io fe w ! (2 * i))) = Some (1000 * int i)"
    unfolding real_lines_eq [OF c] by (rule real_time_at(3) [OF i])
  show "read_int (field 0 (real_lines io fe w ! (2 * i + 1))) = Some (1000 * int i)"
    unfolding real_lines_eq [OF c] by (rule real_time_at(4) [OF i])
qed

theorem lines_alternate_witness:
  "length (hist_lines ok_io 1700000000000 stale_world) = 200 \<and>
   field 1 (hist_lines ok_io 1700000000000 stale_world ! 198) = ''<http://example.org/sensor1>'' \<and>
   field 1 (hist_lines ok_io 1700000000000 stale_world ! 199) = ''<http://example.org/sensor2>'' \<and>
   read_int (field 0 (hist_lines ok_io 1700000000000 stale_world ! 198)) = Some 1699996499000 \<and>
   read_int (field 0 (hist_lines ok_io 1700000000000 stale_world ! 199)) = Some 1699996499000 \<and>
   length (real_lines ok_io sample_runtime stale_world) = 2000 \<and>
   field 1 (real_lines ok_io sample_runtime stale_world ! 1998) = ''<http://example.org/sensor1>'' \<and>
   field 1 (real_lines ok_io sample_runtime stale_world ! 1999) = ''<http://example.org/sensor2>'' \<and>
   read_int (field 0 (real_lines ok_io sample_runtime stale_world ! 1998)) = Some 999000 \<and>
   read_int (field 0 (real_lines ok_io sample_runtime stale_world ! 1999)) = Some 999000"
proof -
  note t = lines_alternate [of ok_io 1700000000000 stale_world sample_runtime]
  from t ok_io_hist [of 1700000000000 stale_world]
  have h: "length (hist_lines ok_io 1700000000000 stale_world) = 2 * 100 \<and>
      (\<forall>i<100.
         field 1 (hist_lines ok_io 1700000000000 stale_world ! (2 * i)) =
           ''<http://example.org/sensor1>'' \<and>
         field 1 (hist_lines ok_io 1700000000000 stale_world ! (2 * i + 1)) =
           ''<http://example.org/sensor2>'' \<and>
         read_int (field 0 (hist_lines ok_io 1700000000000 stale_world ! (2 * i))) =
           Some (1700000000000 - 3600000 + 1000 * int i) \<and>
         read_int (field 0 (hist_lines ok_io 1700000000000 stale_world ! (2 * i + 1))) =
           Some (1700000000000 - 3600000 + 1000 * int i))"
    by blast
  from t ok_io_real [of sample_runtime stale_world]
  have r: "length (real_lines ok_io sample_runtime stale_world) = 2 * 1000 \<and>
      (\<forall>i<1000.
         field 1 (real_lines ok_io sample_runtime stale_world ! (2 * i)) =
           ''<http://example.org/sensor1>'' \<and>
         field 1 (real_lines ok_io sample_runtime stale_world ! (2 * i + 1)) =
           ''<http://example.org/sensor2>'' \<and>
         read_int (field 0 (real_lines ok_io sample_runtime stale_world ! (2 * i))) =
           Some (1000 * int i) \<and>
         read_int (field 0 (real_lines ok_io sample_runtime stale_world ! (2 * i + 1))) =
           Some (1000 * int i))"
    by blast
  from h [THEN conjunct1] h [THEN conjunct2, rule_format, of 99]
    r [THEN conjunct1] r [THEN conjunct2, rule_format, of 999]
  show ?thesis by simp
qed

lemma eager_io_hist: "fst (generate_historical_graph eager_io now w) = Inr ()"
  by (rule hist_ok) (simp_all add: eager_io_def)

lemma hist_file_same:
  assumes "fst (generate_historical_graph io now w) = Inr ()"
    and "fst (generate_historical_graph io2 now w2) = Inr ()"
  shows "files (snd (generate_historical_graph io now w)) ''data/sensors_historical_graph.nq'' =
         files (snd (generate_historical_graph io2 now w2)) ''data/sensors_historical_graph.nq''"
  using hist_completed_file [OF assms(1)] hist_completed_file [OF assms(2)]
  by (simp add: hist_path_def)

lemma real_file_same:
  assumes "fst (generate_realistic_data io fe w) = Inr ()"
    and "fst (generate_realistic_data io2 fe w2) = Inr ()"
    and "rng w2 = rng w"
  shows "files (snd (generate_realistic_data io fe w)) ''data/realistic_sensors.nq'' =
         files (snd (generate_realistic_data io2 fe w2)) ''data/realistic_sensors.nq''"
  using real_completed_file [OF assms(1)] real_completed_file [OF assms(2)] assms(3)
  by (simp add: real_path_def)

lemma hist_completes_any:
  assumes "fst (generate_historical_graph io now w) = Inr ()"
  shows "fst (generate_historical_graph io now w2) = Inr ()"
  using assms unfolding hist_completes_iff .

lemma real_completes_any:
  assumes "fst (generate_realistic_data io fe w) = Inr ()" and "rng w2 = rng w"
  shows "fst (generate_realistic_data io fe w2) = Inr ()"
  using assms unfolding real_completes_iff by simp

text \<open>
  C9. The historical generator never touches the random number generator, and two completed
  runs that sampled the same \<open>now\<close> (whatever the earlier state of the process, the generator
  state and the behaviour of the buffering) leave the same contents in
  \<^verbatim>\<open>data/sensors_historical_graph.nq\<close>, character for character.
\<close>

theorem historical_deterministic:
  "rng (snd (generate_historical_graph io now w)) = rng w \<and>
   (fst (generate_historical_graph io now w) = Inr () \<and>
    fst (generate_historical_graph io2 now w2) = Inr () \<longrightarrow>
      files (snd (generate_historical_graph io now w)) ''data/sensors_historical_graph.nq'' =
      files (snd (generate_historical_graph io2 now w2)) ''data/sensors_historical_graph.nq'')"
  using hist_rng [of io now w] hist_file_same [of io now w io2 w2] by blast

theorem historical_deterministic_witness:
  "rng (snd (generate_historical_graph ok_io 1700000000000 stale_world)) = 7 \<and>
   rng fresh_world = 99 \<and>
   files (snd (generate_historical_graph ok_io 1700000000000 stale_world))
     ''data/sensors_historical_graph.nq'' =
   files (snd (generate_historical_graph eager_io 1700000000000 fresh_world))
     ''data/sensors_historical_graph.nq''"
  using historical_deterministic [of ok_io 1700000000000 stale_world eager_io fresh_world]
    ok_io_hist [of 1700000000000 stale_world] eager_io_hist [of 1700000000000 fresh_world]
  by (simp add: stale_world_def fresh_world_def)

text \<open>
  C7. A completed run of either generator leaves in its file exactly its own lines (200, or
  2000), each followed by a newline, and nothing else. The contents do not depend on what the
  file held before the run, or on whether it existed; and running the generator again on the
  state the first run left (with the same \<open>now\<close>, or the same generator state) completes and
  leaves the same contents as the first run.
\<close>

theorem reruns_overwrite:
  "(fst (generate_historical_graph io now w) = Inr () \<longrightarrow>
      files (snd (generate_historical_graph io now w)) ''data/sensors_historical_graph.nq'' =
        Some (concat (map (\<lambda>l. l @ ''\<newline>'') (hist_lines io now w))) \<and>
      length (hist_lines io now w) = 200 \<and>
      (\<forall>prior.
         fst (generate_historical_graph io now
           (w\<lparr>files := (files w)(''data/sensors_historical_graph.nq'' := prior)\<rparr>)) = Inr () \<and>
         files (snd (generate_historical_graph io now
           (w\<lparr>files := (files w)(''data/sensors_historical_graph.nq'' := prior)\<rparr>)))
           ''data/sensors_historical_graph.nq'' =
         files (snd (generate_historical_graph io now w)) ''data/sensors_historical_graph.nq'') \<and>
      fst (generate_historical_graph io now (snd (generate_historical_graph io now w))) =
        Inr () \<and>
      files (snd (generate_historical_graph io now (snd (generate_historical_graph io now w))))
        ''data/sensors_historical_graph.nq'' =
      files (snd (generate_historical_graph io now w)) ''data/sensors_historical_graph.nq'') \<and>
   (fst (generate_realistic_data io fe w) = Inr () \<longrightarrow>
      files (snd (generate_realistic_data io fe w)) ''data/realistic_sensors.nq'' =
        Some (concat (map (\<lambda>l. l @ ''\<newline>'') (real_lines io fe w))) \<and>
      length (real_lines io fe w) = 2000 \<and>
      (\<forall>prior.
         fst (generate_realistic_data io fe
           (w\<lparr>files := (files w)(''data/realistic_sensors.nq'' := prior)\<rparr>)) = Inr () \<and>
         files (snd (generate_realistic_data io fe
           (w\<lparr>files := (files w)(''data/realistic_sensors.nq'' := prior)\<rparr>)))
           ''data/realistic_sensors.nq'' =
         files (snd (generate_realistic_data io fe w)) ''data/realistic_sensors.nq'') \<and>
      fst (generate_realistic_data io fe
        ((snd (generate_realistic_data io fe w))\<lparr>rng := rng w\<rparr>)) = Inr () \<and>
      files (snd (generate_realistic_data io fe
        ((snd (generate_realistic_data io fe w))\<lparr>rng := rng w\<rparr>)))
        ''data/realistic_sensors.nq'' =
      files (snd (generate_realistic_data io fe w)) ''data/realistic_sensors.nq'')"
proof (intro conjI impI allI)
  assume c: "fst (generate_historical_graph io now w) = Inr ()"
  show "files (snd (generate_historical_graph io now w)) ''data/sensors_historical_graph.nq'' =
          Some (concat (map (\<lambda>l. l @ ''\<newline>'') (hist_lines io now w)))"
    by (rule hist_file_text [OF c])
  show "length (hist_lines io now w) = 200"
    unfolding hist_lines_eq [OF c] by (rule hist_records_length)
  show "fst (generate_historical_graph io now (snd (generate_historical_graph io now w))) =
          Inr ()"
    by (rule hist_completes_any [OF c])
  show "files (snd (generate_historical_graph io now (snd (generate_historical_graph io now w))))
          ''data/sensors_historical_graph.nq'' =
        files (snd (generate_historical_graph io now w)) ''data/sensors_historical_graph.nq''"
    by (rule hist_file_same [OF hist_completes_any [OF c] c])
next
  fix prior
  assume c: "fst (generate_historical_graph io now w) = Inr ()"
  show "fst (generate_historical_graph io now
          (w\<lparr>files := (files w)(''data/sensors_historical_graph.nq'' := prior)\<rparr>)) = Inr ()"
    by (rule hist_completes_any [OF c])
  show "files (snd (generate_historical_graph io now
          (w\<lparr>files := (files w)(''data/sensors_historical_graph.nq'' := prior)\<rparr>)))
          ''data/sensors_historical_graph.nq'' =
        files (snd (generate_historical_graph io now w)) ''data/sensors_historical_graph.nq''"
    by (rule hist_file_same [OF hist_completes_any [OF c] c])
next
  assume c: "fst (generate_realistic_data io fe w) = Inr ()"
  show "files (snd (generate_realistic_data io fe w)) ''data/realistic_sensors.nq'' =
          Some (concat (map (\<lambda>l. l @ ''\<newline>'') (real_lines io fe w)))"
    by (rule real_file_text [OF c])
  show "length (real_lines io fe w) = 2000"
    unfolding real_lines_eq [OF c] by (rule real_records_length)
  have r: "rng ((snd (generate_realistic_data io fe w))\<lparr>rng := rng w\<rparr>) = rng w" by simp
  show "fst (generate_realistic_data io fe
          ((snd (generate_realistic_data io fe w))\<lparr>rng := rng w\<rparr>)) = Inr ()"
    by (rule real_completes_any [OF c r])
  show "files (snd (generate_realistic_data io fe
          ((snd (generate_realistic_data io fe w))\<lparr>rng := rng w\<rparr>)))
          ''data/realistic_sensors.nq'' =
        files (snd (generate_realistic_data io fe w)) ''data/realistic_sensors.nq''"
    by (rule real_file_same [OF real_completes_any [OF c r] c]) simp
next
  fix prior
  assume c: "fst (generate_realistic_data io fe w) = Inr ()"
  have r: "rng (w\<lparr>files := (files w)(''data/realistic_sensors.nq'' := prior)\<rparr>) = rng w"
    by simp
  show "fst (generate_realistic_data io fe
          (w\<lparr>files := (files w)(''data/realistic_sensors.nq'' := prior)\<rparr>)) = Inr ()"
    by (rule real_completes_any [OF c r])
  show "files (snd (generate_realistic_data io fe
          (w\<lparr>files := (files w)(''data/realistic_sensors.nq'' := prior)\<rparr>)))
          ''data/realistic_sensors.nq'' =
        files (snd (generate_realistic_data io fe w)) ''data/realistic_sensors.nq''"
    by (rule real_file_same [OF real_completes_any [OF c r] c]) simp
qed

theorem reruns_overwrite_witness:
  "files stale_world ''data/sensors_historical_graph.nq'' =
     Some ''left over from an earlier run'' \<and>
   length (hist_lines ok_io 1700000000000 stale_world) = 200 \<and>
   files (snd (generate_historical_graph ok_io 1700000000000
     (stale_world\<lparr>files := (files stale_world)(''data/sensors_historical_graph.nq'' := None)\<rparr>)))
     ''data/sensors_historical_graph.nq'' =
   files (snd (generate_historical_graph ok_io 1700000000000 stale_world))
     ''data/sensors_historical_graph.nq'' \<and>
   files (snd (generate_historical_graph ok_io 1700000000000
     (snd (generate_historical_graph ok_io 1700000000000 stale_world))))
     ''data/sensors_historical_graph.nq'' =
   files (snd (generate_historical_graph ok_io 1700000000000 stale_world))
     ''data/sensors_historical_graph.nq'' \<and>
   length (real_lines ok_io sample_runtime stale_world) = 2000 \<and>
   files (snd (generate_realistic_data ok_io sample_runtime
     (stale_world\<lparr>files := (files stale_world)(''data/realistic_sensors.nq'' := None)\<rparr>)))
     ''data/realistic_sensors.nq'' =
   files (snd (generate_realistic_data ok_io sample_runtime stale_world))
     ''data/realistic_sensors.nq'' \<and>
   files (snd (generate_realistic_data ok_io sample_runtime
     ((snd (generate_realistic_data ok_io sample_runtime stale_world))\<lparr>rng := rng stale_world\<rparr>)))
     ''data/realistic_sensors.nq'' =
   files (snd (generate_realistic_data ok_io sample_runtime stale_world))
     ''data/realistic_sensors.nq''"
proof -
  note t = reruns_overwrite [of ok_io 1700000000000 stale_world sample_runtime]
  have s: "files stale_world ''data/sensors_historical_graph.nq'' =
             Some ''left over from an earlier run''"
    by (simp add: stale_world_def)
  from t ok_io_hist [of 1700000000000 stale_world] ok_io_real [of sample_runtime stale_world] s
  show ?thesis by blast
qed

















end
